theory Spec2Isabelle
  imports Complex_Main "HOL-Library.Multiset" "HOL-Library.Char_ord" "HOL-Library.List_Lexorder"
begin

section \<open>Values, dictionaries and exceptions\<close>

text \<open>
  Firestore documents and search hits are Python dictionaries from field names to
  dynamically typed values. The values that occur are \<open>None\<close>, strings, numbers and
  embedding vectors (a Firestore \<open>Vector\<close>, or a list of floats; the one constructor
  \<open>VVec\<close> stands for both). Python floats are modelled by the reals. A score that the
  code computes in doubles can therefore differ from the model's value in its last
  bits, and two scores that are equal over the reals can differ in the code. The
  theorems below state which function of which vectors a score is, where it is exposed
  and what is sorted by it; they use no algebra of the reals beyond
  \<open>0 * x + 1 * y = y\<close> and that a sum of zeros is zero.
\<close>

datatype val = VNone | VStr string | VNum real | VVec "real list"

type_synonym pydict = "string \<rightharpoonup> val"

datatype exn = KeyError | TypeError | ValueError | NotFound
  | ProviderError | NetworkError | DecodeError | StoreError

text \<open>Python truthiness (\<open>if x:\<close>).\<close>

fun truthy :: "val \<Rightarrow> bool" where
  "truthy VNone = False"
| "truthy (VStr s) = (s \<noteq> [])"
| "truthy (VNum x) = (x \<noteq> 0)"
| "truthy (VVec v) = (v \<noteq> [])"

text \<open>\<open>d.get(k)\<close> and \<open>d.get(k, default)\<close>.\<close>

definition get :: "pydict \<Rightarrow> string \<Rightarrow> val" where
  "get d k = (case d k of None \<Rightarrow> VNone | Some v \<Rightarrow> v)"

definition get_default :: "pydict \<Rightarrow> string \<Rightarrow> val \<Rightarrow> val" where
  "get_default d k dflt = (case d k of None \<Rightarrow> dflt | Some v \<Rightarrow> v)"

text \<open>
  \<open>xs.sort(key=f, reverse=True)\<close> on keys of one ordered type: CPython reverses the
  list, sorts it stably in ascending order, and reverses it again.
\<close>

definition sort_reverse :: "('a \<Rightarrow> 'k::linorder) \<Rightarrow> 'a list \<Rightarrow> 'a list" where
  "sort_reverse f xs = rev (sort_key f (rev xs))"

fun is_num :: "val \<Rightarrow> bool" where
  "is_num (VNum x) = True"
| "is_num v = False"

fun is_str :: "val \<Rightarrow> bool" where
  "is_str (VStr s) = True"
| "is_str v = False"

fun num_of :: "val \<Rightarrow> real" where
  "num_of (VNum x) = x"
| "num_of v = 0"

fun str_of :: "val \<Rightarrow> string" where
  "str_of (VStr s) = s"
| "str_of v = []"

text \<open>
  The same sort on a list of dictionaries whose keys are values: numbers compare with
  numbers and strings with strings; any other comparison (\<open>None\<close>, a \<open>Vector\<close>,
  or two different types) raises \<open>TypeError\<close> as soon as two elements are compared,
  that is, when the list has at least two elements. (\<open>VVec\<close> is read as a
  \<open>Vector\<close> here; plain Python lists as keys would be ordered.)
\<close>

definition sort_reverse_by :: "(pydict \<Rightarrow> val) \<Rightarrow> pydict list \<Rightarrow> exn + pydict list" where
  "sort_reverse_by key xs =
     (if \<forall>x \<in> set xs. is_num (key x) then Inr (sort_reverse (\<lambda>x. num_of (key x)) xs)
      else if length xs \<le> 1 then Inr xs
      else if \<forall>x \<in> set xs. is_str (key x) then Inr (sort_reverse (\<lambda>x. str_of (key x)) xs)
      else Inl TypeError)"

text \<open>\<open>xs[:limit]\<close>: a negative limit counts from the end.\<close>

definition slice_to :: "'a list \<Rightarrow> int \<Rightarrow> 'a list" where
  "slice_to xs limit =
     (if 0 \<le> limit then take (nat limit) xs else take (length xs - nat (- limit)) xs)"

text \<open>\<open>', '.join(names)\<close> raises \<open>TypeError\<close> on an item that is not a string.\<close>

definition join_ok :: "val list \<Rightarrow> bool" where
  "join_ok names = (\<forall>v \<in> set names. is_str v)"


section \<open>The embedding model (jina\_clip\_embedding.py)\<close>

text \<open>
  The underlying CLIP model is a black box that returns a vector or raises.
  \<open>encode_text\<close> and \<open>encode_image\<close> of \<open>JinaCLIPEmbedding\<close> catch every exception
  and return \<open>None\<close> instead.
\<close>

definition encode_text :: "(val \<Rightarrow> exn + real list) \<Rightarrow> val \<Rightarrow> real list option" where
  "encode_text model text = (case model text of Inl e \<Rightarrow> None | Inr v \<Rightarrow> Some v)"

definition encode_image :: "('img \<Rightarrow> exn + real list) \<Rightarrow> 'img \<Rightarrow> real list option" where
  "encode_image model img = (case model img of Inl e \<Rightarrow> None | Inr v \<Rightarrow> Some v)"

text \<open>\<open>if embedding:\<close> on an \<open>Optional[List[float]]\<close>.\<close>

fun nonempty :: "real list option \<Rightarrow> bool" where
  "nonempty None = False"
| "nonempty (Some v) = (v \<noteq> [])"


section \<open>The vector database (firestore\_vector\_db.py)\<close>

subsection \<open>calculate\_dot\_product\_score\<close>

text \<open>
  \<open>np.dot\<close> of two one-dimensional arrays raises \<open>ValueError\<close> when their lengths
  differ; the function catches it and returns \<open>0.0\<close>. The sum is taken here over
  the reals, where \<open>np.dot\<close> rounds in doubles.
\<close>

definition dot :: "real list \<Rightarrow> real list \<Rightarrow> real" where
  "dot a b = sum_list (map (\<lambda>(x, y). x * y) (zip a b))"

definition calculate_dot_product_score :: "real list \<Rightarrow> real list \<Rightarrow> real" where
  "calculate_dot_product_score vec1 vec2 =
     (if length vec1 = length vec2 then dot vec1 vec2 else 0.0)"

subsection \<open>vector\_search\<close>

text \<open>
  The store is read through two operations it supplies: \<open>find_nearest field query limit\<close>
  streams the candidate embedding documents in the store's own order, or raises;
  \<open>get_product key\<close> fetches a product document (\<open>None\<close> when it does not exist),
  or raises.
\<close>

type_synonym nearest = "string \<Rightarrow> real list \<Rightarrow> int \<Rightarrow> exn + pydict list"
type_synonym lookup = "string \<Rightarrow> exn + pydict option"

text \<open>
  Lines 138--145: the stored field as a list. \<open>list(x)\<close> raises on \<open>None\<close> and on a
  number, which leaves \<open>None\<close>. (A string would become a list of characters, on which
  \<open>np.dot\<close> raises, so its score is \<open>0.0\<close> as well.)
\<close>

fun stored_vector :: "val \<Rightarrow> real list option" where
  "stored_vector (VVec v) = Some v"
| "stored_vector v = None"

text \<open>Lines 147--151: the score recomputed from the query and the stored vector.\<close>

definition candidate_score :: "real list \<Rightarrow> string \<Rightarrow> pydict \<Rightarrow> real" where
  "candidate_score query_embedding vector_field_name doc_data =
     (let embedding_vec = stored_vector (get doc_data vector_field_name)
      in if nonempty embedding_vec
         then calculate_dot_product_score query_embedding (the embedding_vec)
         else 0)"

text \<open>
  Lines 153--160: the metadata join. Any failure of the lookup (also a document key
  that is not a string) is caught and leaves the metadata empty.
\<close>

definition join_product :: "lookup \<Rightarrow> val \<Rightarrow> pydict" where
  "join_product get_product product_id =
     (if truthy product_id then
        (case product_id of
           VStr key \<Rightarrow> (case get_product key of Inr (Some product_doc) \<Rightarrow> product_doc | _ \<Rightarrow> Map.empty)
         | _ \<Rightarrow> Map.empty)
      else Map.empty)"

text \<open>Lines 162--168: the hit; the product's fields override the four fields before them.\<close>

definition combined_result :: "lookup \<Rightarrow> real list \<Rightarrow> string \<Rightarrow> pydict \<Rightarrow> pydict" where
  "combined_result get_product query_embedding vector_field_name doc_data =
     (let product_id = get doc_data ''id'';
          similarity_score = candidate_score query_embedding vector_field_name doc_data;
          product_data = join_product get_product product_id
      in [''id'' \<mapsto> product_id,
          ''similarity_score'' \<mapsto> VNum similarity_score,
          ''text_embedding'' \<mapsto> get doc_data ''text_embedding'',
          ''image_embedding'' \<mapsto> get doc_data ''image_embedding''] ++ product_data)"

definition vector_search :: "nearest \<Rightarrow> lookup \<Rightarrow> real list \<Rightarrow> int \<Rightarrow> string \<Rightarrow> pydict list" where
  "vector_search find_nearest get_product query_embedding limit query_type =
     (let vector_field_name =
            (if query_type = ''image'' then ''image_embedding'' else ''text_embedding'')
      in case find_nearest vector_field_name query_embedding limit of
           Inl e \<Rightarrow> []
         | Inr docs \<Rightarrow>
             (let results = map (combined_result get_product query_embedding vector_field_name) docs
              in case sort_reverse_by (\<lambda>x. get_default x ''similarity_score'' (VNum 0)) results of
                   Inl e \<Rightarrow> []
                 | Inr sorted_results \<Rightarrow> sorted_results))"

subsection \<open>store\_products\<close>

text \<open>
  The two collections are lists of documents, each a key with its fields, in the order
  the store returns them. The journal records every successful write in the order
  it happened.
\<close>

datatype event = DocumentSet string pydict | MarkedDone string

record firestore =
  product_docs :: "(string \<times> pydict) list"
  vector_docs :: "(string \<times> pydict) list"
  journal :: "event list"

text \<open>
  What the indexing run receives from outside: the embedding model passed as an
  argument (its methods may return \<open>None\<close>, and the loop also provides for their
  raising), the download and decoding of an image, and the faults of the store.
\<close>

record 'img services =
  encode_text_of :: "val \<Rightarrow> exn + real list option"
  encode_image_of :: "'img \<Rightarrow> exn + real list option"
  fetch_image :: "val \<Rightarrow> exn + 'img"
  query_fault :: "exn option"
  set_fault :: "string \<Rightarrow> exn option"
  update_fault :: "string \<Rightarrow> exn option"

text \<open>
  \<open>collection.document(key)\<close>: the catalogue keys its documents by non-empty strings
  (the API model declares \<open>id: str\<close>), and a key of another type is refused. For the
  key \<open>None\<close> the Firestore client would invent a fresh key, write under it and then
  fail in \<open>update\<close> with \<open>NotFound\<close>; here it is refused like the others, which also
  ends the loop without a flip. A key with a slash, which the client takes for a path
  and refuses, is accepted here as a plain key.
\<close>

fun document :: "val \<Rightarrow> exn + string" where
  "document (VStr s) = (if s = [] then Inl ValueError else Inr s)"
| "document v = Inl TypeError"

fun upsert :: "string \<Rightarrow> pydict \<Rightarrow> (string \<times> pydict) list \<Rightarrow> (string \<times> pydict) list" where
  "upsert k d [] = [(k, d)]"
| "upsert k d ((k', d') # rest) = (if k' = k then (k, d) # rest else (k', d') # upsert k d rest)"

text \<open>\<open>embedding_collection.document(key).set(data)\<close>: creates or overwrites.\<close>

definition document_set :: "'img services \<Rightarrow> firestore \<Rightarrow> string \<Rightarrow> pydict \<Rightarrow> exn + firestore" where
  "document_set env st key data =
     (case set_fault env key of
        Some e \<Rightarrow> Inl e
      | None \<Rightarrow> Inr (st\<lparr>vector_docs := upsert key data (vector_docs st),
                         journal := journal st @ [DocumentSet key data]\<rparr>))"

text \<open>
  \<open>product_collection.document(key).update({"is_emb": "D"})\<close>: raises \<open>NotFound\<close>
  when there is no such document.
\<close>

definition document_update :: "'img services \<Rightarrow> firestore \<Rightarrow> string \<Rightarrow> exn + firestore" where
  "document_update env st key =
     (case update_fault env key of
        Some e \<Rightarrow> Inl e
      | None \<Rightarrow>
          if key \<in> fst ` set (product_docs st)
          then Inr (st\<lparr>product_docs :=
                          map (\<lambda>(k, d). if k = key then (k, d(''is_emb'' \<mapsto> VStr ''D'')) else (k, d))
                              (product_docs st),
                        journal := journal st @ [MarkedDone key]\<rparr>)
          else Inl NotFound)"

datatype outcome = Stored | Skipped | Aborted exn

text \<open>Lines 94--98: the embedding document.\<close>

definition embedding_doc_data :: "val \<Rightarrow> real list \<Rightarrow> real list \<Rightarrow> pydict" where
  "embedding_doc_data pid embedding_text embedding_image =
     [''id'' \<mapsto> pid, ''text_embedding'' \<mapsto> VVec embedding_text,
      ''image_embedding'' \<mapsto> VVec embedding_image]"

text \<open>
  Lines 100--101: the write of the embedding document, then the flip of the flag;
  an exception in either leaves the loop with what has been written so far.
\<close>

definition store_embedding ::
  "'img services \<Rightarrow> firestore \<Rightarrow> val \<Rightarrow> real list \<Rightarrow> real list \<Rightarrow> outcome \<times> firestore" where
  "store_embedding env st pid embedding_text embedding_image =
     (case document pid of
        Inl e \<Rightarrow> (Aborted e, st)
      | Inr key \<Rightarrow>
          (case document_set env st key (embedding_doc_data pid embedding_text embedding_image) of
             Inl e \<Rightarrow> (Aborted e, st)
           | Inr st1 \<Rightarrow>
               (case document_update env st1 key of
                  Inl e \<Rightarrow> (Aborted e, st1)
                | Inr st2 \<Rightarrow> (Stored, st2))))"

text \<open>
  Lines 79--104, one iteration of the loop. The inner \<open>try\<close> covers the text
  embedding only; its handler prints the product's id (a \<open>KeyError\<close> when there is
  none) and continues. Every other exception leaves the loop.
\<close>

definition store_one :: "'img services \<Rightarrow> firestore \<Rightarrow> pydict \<Rightarrow> outcome \<times> firestore" where
  "store_one env st product =
     (case (case product ''product_name'' of
              None \<Rightarrow> Inl KeyError
            | Some name \<Rightarrow> encode_text_of env name) of
        Inl e \<Rightarrow>
          (case product ''id'' of
             None \<Rightarrow> (Aborted KeyError, st)
           | Some pid \<Rightarrow> (Skipped, st))
      | Inr embedding_text \<Rightarrow>
          (let image_url = get_default product ''image_url'' (VStr [])
           in case fetch_image env image_url of
                Inl e \<Rightarrow> (Aborted e, st)
              | Inr img \<Rightarrow>
                  (case encode_image_of env img of
                     Inl e \<Rightarrow> (Aborted e, st)
                   | Inr embedding_image \<Rightarrow>
                       if nonempty embedding_text \<and> nonempty embedding_image then
                         (case product ''id'' of
                            None \<Rightarrow> (Aborted KeyError, st)
                          | Some pid \<Rightarrow>
                              store_embedding env st pid (the embedding_text) (the embedding_image))
                       else (Skipped, st))))"

text \<open>
  The loop over the pending products with its counter; it returns the exception that
  ended it, if any, the number of products stored, and the store as it is left.
\<close>

fun store_loop :: "'img services \<Rightarrow> firestore \<Rightarrow> nat \<Rightarrow> pydict list \<Rightarrow> exn option \<times> nat \<times> firestore" where
  "store_loop env st stored_count [] = (None, stored_count, st)"
| "store_loop env st stored_count (product # rest) =
     (case store_one env st product of
        (Aborted e, st') \<Rightarrow> (Some e, stored_count, st')
      | (Stored, st') \<Rightarrow> store_loop env st' (stored_count + 1) rest
      | (Skipped, st') \<Rightarrow> store_loop env st' stored_count rest)"

text \<open>Lines 70--72: the products whose \<open>is_emb\<close> is \<open>"R"\<close>.\<close>

definition pending :: "firestore \<Rightarrow> pydict list" where
  "pending st = map snd (filter (\<lambda>(k, d). d ''is_emb'' = Some (VStr ''R'')) (product_docs st))"

text \<open>
  The body of the outer \<open>try\<close> (lines 67--108): the query for the pending products,
  then the loop with \<open>stored_count\<close> starting at 0.
\<close>

definition store_products_run :: "'img services \<Rightarrow> firestore \<Rightarrow> exn option \<times> nat \<times> firestore" where
  "store_products_run env st =
     (case query_fault env of
        Some e \<Rightarrow> (Some e, 0, st)
      | None \<Rightarrow> store_loop env st 0 (pending st))"

text \<open>\<open>store_products\<close> returns \<open>True\<close>, or \<open>False\<close> when an exception ended the run.\<close>

definition store_products :: "'img services \<Rightarrow> firestore \<Rightarrow> bool \<times> firestore" where
  "store_products env st =
     (case store_products_run env st of
        (None, stored_count, st') \<Rightarrow> (True, st')
      | (Some e, stored_count, st') \<Rightarrow> (False, st'))"


section \<open>The retrieval system (multimodal\_rag\_system.py)\<close>

text \<open>
  The system's embedding model is a \<open>JinaCLIPEmbedding\<close>, so the search operations take
  the two underlying models and call \<open>encode_text\<close> and \<open>encode_image\<close> above.
\<close>

subsection \<open>search\_by\_text and search\_by\_image\<close>

definition search_by_text ::
  "(val \<Rightarrow> exn + real list) \<Rightarrow> nearest \<Rightarrow> lookup \<Rightarrow> string \<Rightarrow> int \<Rightarrow> exn + pydict list" where
  "search_by_text text_model find_nearest get_product query limit =
     (let query_embedding = encode_text text_model (VStr query)
      in if \<not> nonempty query_embedding then Inr []
         else
           (let results = vector_search find_nearest get_product (the query_embedding) limit ''text''
            in if results \<noteq> [] \<and>
                  \<not> join_ok (map (\<lambda>r. get_default r ''id'' (VStr ''Unknown'')) (slice_to results 5))
               then Inl TypeError
               else Inr results))"

definition search_by_image ::
  "('img \<Rightarrow> exn + real list) \<Rightarrow> nearest \<Rightarrow> lookup \<Rightarrow> 'img \<Rightarrow> int \<Rightarrow> string \<Rightarrow> exn + pydict list" where
  "search_by_image image_model find_nearest get_product img limit query_type =
     (let query_embedding = encode_image image_model img
      in if \<not> nonempty query_embedding then Inr []
         else
           (let results = vector_search find_nearest get_product (the query_embedding) limit query_type
            in if results \<noteq> [] \<and>
                  \<not> join_ok (map (\<lambda>r. get_default r ''product_name'' (VStr ''Unknown'')) (slice_to results 5))
               then Inl TypeError
               else Inr results))"

subsection \<open>search\_multimodal\<close>

text \<open>
  Lines 95--100: the merge. \<open>combined_dict\<close> keeps its insertion order; a key that is a
  \<open>Vector\<close> is not hashable, and the membership test raises \<open>TypeError\<close>.
\<close>

fun hashable :: "val \<Rightarrow> bool" where
  "hashable (VVec v) = False"
| "hashable v = True"

fun merge_loop :: "(val \<times> pydict) list \<Rightarrow> pydict list \<Rightarrow> exn + (val \<times> pydict) list" where
  "merge_loop combined_dict [] = Inr combined_dict"
| "merge_loop combined_dict (doc # docs) =
     (let doc_id = get doc ''id''
      in if \<not> truthy doc_id then merge_loop combined_dict docs
         else if \<not> hashable doc_id then Inl TypeError
         else if doc_id \<in> fst ` set combined_dict then merge_loop combined_dict docs
         else merge_loop (combined_dict @ [(doc_id, doc)]) docs)"

definition merge_results :: "pydict list \<Rightarrow> pydict list \<Rightarrow> exn + pydict list" where
  "merge_results text_results image_results =
     (case merge_loop [] (text_results @ image_results) of
        Inl e \<Rightarrow> Inl e
      | Inr combined_dict \<Rightarrow> Inr (map snd combined_dict))"

text \<open>Lines 107--109 and 117--120: the weighted sum over \<open>zip\<close>.\<close>

definition weighted_sum :: "real \<Rightarrow> real list \<Rightarrow> real list \<Rightarrow> real list" where
  "weighted_sum alpha image_emb text_emb =
     (let alpha_img = alpha; alpha_text = 1.0 - alpha
      in map (\<lambda>(i, t). alpha_img * i + alpha_text * t) (zip image_emb text_emb))"

text \<open>
  Lines 104--115: the combined embedding of one candidate. Iterating over a number,
  or multiplying a character by a float, raises \<open>TypeError\<close>.
\<close>

definition combined_embedding :: "real \<Rightarrow> pydict \<Rightarrow> exn + val" where
  "combined_embedding alpha doc =
     (let text_emb = get_default doc ''text_embedding'' (VVec []);
          image_emb = get_default doc ''image_embedding'' (VVec [])
      in if truthy text_emb \<and> truthy image_emb then
           (case (image_emb, text_emb) of
              (VVec i, VVec t) \<Rightarrow> Inr (VVec (weighted_sum alpha i t))
            | _ \<Rightarrow> Inl TypeError)
         else if truthy text_emb then Inr text_emb
         else if truthy image_emb then Inr image_emb
         else Inr (VVec []))"

fun combine_all :: "real \<Rightarrow> pydict list \<Rightarrow> exn + pydict list" where
  "combine_all alpha [] = Inr []"
| "combine_all alpha (doc # docs) =
     (case combined_embedding alpha doc of
        Inl e \<Rightarrow> Inl e
      | Inr c \<Rightarrow>
          (case combine_all alpha docs of
             Inl e \<Rightarrow> Inl e
           | Inr docs' \<Rightarrow> Inr (doc(''combined_embedding'' \<mapsto> c) # docs')))"

text \<open>
  Lines 122--126, over the reals: the code's two sums, the square roots and the
  quotient are doubles, so its value can differ from this one in the last bits.
\<close>

definition cosine_similarity :: "real list \<Rightarrow> real list \<Rightarrow> real" where
  "cosine_similarity a b =
     (let dot = sum_list (map (\<lambda>(x, y). x * y) (zip a b));
          norm_a = sqrt (sum_list (map (\<lambda>x. x * x) a));
          norm_b = sqrt (sum_list (map (\<lambda>y. y * y) b))
      in if norm_a \<noteq> 0 \<and> norm_b \<noteq> 0 then dot / (norm_a * norm_b) else 0)"

text \<open>
  The sort key of lines 129--131 on a dynamically typed first argument: a vector is
  iterated; an empty string yields empty sums; anything else raises \<open>TypeError\<close>.
\<close>

fun fused_score :: "val \<Rightarrow> real list \<Rightarrow> exn + real" where
  "fused_score (VVec a) b = Inr (cosine_similarity a b)"
| "fused_score (VStr s) b = (if s = [] then Inr 0 else Inl TypeError)"
| "fused_score v b = Inl TypeError"

definition sort_key_of :: "real list \<Rightarrow> pydict \<Rightarrow> exn + real" where
  "sort_key_of query_combined_embedding doc =
     fused_score (get_default doc ''combined_embedding'' (VVec [])) query_combined_embedding"

definition rank :: "real list \<Rightarrow> pydict list \<Rightarrow> exn + pydict list" where
  "rank query_combined_embedding combined_results =
     (if \<exists>doc \<in> set combined_results. isl (sort_key_of query_combined_embedding doc)
      then Inl TypeError
      else Inr (sort_reverse (\<lambda>doc. projr (sort_key_of query_combined_embedding doc))
                  combined_results))"

definition search_multimodal ::
  "(val \<Rightarrow> exn + real list) \<Rightarrow> ('img \<Rightarrow> exn + real list) \<Rightarrow> nearest \<Rightarrow> lookup \<Rightarrow>
     string \<Rightarrow> 'img \<Rightarrow> int \<Rightarrow> real \<Rightarrow> exn + pydict list" where
  "search_multimodal text_model image_model find_nearest get_product text_query img limit alpha =
     (let text_embedding = encode_text text_model (VStr text_query);
          image_embedding = encode_image image_model img
      in if \<not> nonempty text_embedding \<or> \<not> nonempty image_embedding then Inr []
         else
           (let text_results =
                  vector_search find_nearest get_product (the text_embedding) limit ''text'';
                image_results =
                  vector_search find_nearest get_product (the image_embedding) limit ''image''
            in case merge_results text_results image_results of
                 Inl e \<Rightarrow> Inl e
               | Inr merged \<Rightarrow>
                   (case combine_all alpha merged of
                      Inl e \<Rightarrow> Inl e
                    | Inr combined_results \<Rightarrow>
                        (let query_combined_embedding =
                               weighted_sum alpha (the image_embedding) (the text_embedding)
                         in case rank query_combined_embedding combined_results of
                              Inl e \<Rightarrow> Inl e
                            | Inr ranked \<Rightarrow>
                                (let top_results = slice_to ranked limit
                                 in if top_results \<noteq> [] \<and>
                                       \<not> join_ok (map (\<lambda>r. get_default r ''product_name'' (VStr ''Unknown''))
                                                   (slice_to top_results 5))
                                    then Inl TypeError
                                    else Inr top_results)))))"


section \<open>Example data\<close>

text \<open>
  A catalogue entry, and services in which an image is named by its URL: the text
  model fails on the name \<open>broken\<close>, the download fails on an empty URL, and the store
  has no fault.
\<close>

definition product :: "string \<Rightarrow> string \<Rightarrow> string \<Rightarrow> string \<times> pydict" where
  "product pid name url =
     (pid, [''id'' \<mapsto> VStr pid, ''product_name'' \<mapsto> VStr name, ''image_url'' \<mapsto> VStr url,
            ''is_emb'' \<mapsto> VStr ''R''])"

definition demo_services :: "string services" where
  "demo_services =
     \<lparr>encode_text_of = (\<lambda>name. if name = VStr ''broken'' then Inr None else Inr (Some [1, 0])),
      encode_image_of = (\<lambda>img. Inr (Some [0, 1])),
      fetch_image = (\<lambda>url. case url of
                               VStr u \<Rightarrow> if u = [] then Inl NetworkError else Inr u
                             | _ \<Rightarrow> Inl NetworkError),
      query_fault = None,
      set_fault = (\<lambda>k. None),
      update_fault = (\<lambda>k. None)\<rparr>"

definition catalogue_bad_image :: firestore where
  "catalogue_bad_image =
     \<lparr>product_docs = [product ''p1'' ''noodles'' [], product ''p2'' ''ramen'' ''http://img/2''],
      vector_docs = [], journal = []\<rparr>"


definition catalogue_ok :: firestore where
  "catalogue_ok =
     \<lparr>product_docs = [product ''p1'' ''noodles'' ''http://img/1'',
                      product ''p2'' ''broken'' ''http://img/2''],
      vector_docs = [], journal = []\<rparr>"


section \<open>Properties of a run, as predicates\<close>

text \<open>
  An embedding document for key \<open>k\<close>: it carries the id and two non-empty vectors.
\<close>

fun written_vector :: "val option \<Rightarrow> bool" where
  "written_vector (Some (VVec v)) = (v \<noteq> [])"
| "written_vector v = False"

definition embedding_document :: "string \<Rightarrow> pydict \<Rightarrow> bool" where
  "embedding_document k d =
     (d ''id'' = Some (VStr k) \<and> written_vector (d ''text_embedding'')
      \<and> written_vector (d ''image_embedding''))"

text \<open>
  In a journal, every flip to \<open>Done\<close> comes directly after the successful write of an
  embedding document under the same key.
\<close>

fun done_after_write :: "event list \<Rightarrow> bool" where
  "done_after_write [] = True"
| "done_after_write (DocumentSet k d # MarkedDone k' # rest) =
     (k' = k \<and> embedding_document k d \<and> done_after_write rest)"
| "done_after_write (DocumentSet k d # rest) = done_after_write rest"
| "done_after_write (MarkedDone k # rest) = False"

definition has_embedding_document :: "string \<Rightarrow> firestore \<Rightarrow> bool" where
  "has_embedding_document k st =
     (case map_of (vector_docs st) k of None \<Rightarrow> False | Some d \<Rightarrow> embedding_document k d)"

text \<open>
  Every product that is \<open>Done\<close> in \<open>st\<close> was so already in \<open>st0\<close>, or has its
  embedding document in \<open>st\<close>.
\<close>

definition flagged_with_document :: "firestore \<Rightarrow> firestore \<Rightarrow> bool" where
  "flagged_with_document st0 st =
     (\<forall>(k, d) \<in> set (product_docs st). d ''is_emb'' = Some (VStr ''D'') \<longrightarrow>
        (k, d) \<in> set (product_docs st0) \<or> has_embedding_document k st)"


text \<open>
  The catalogue's invariant: product ids are unique, and each product document is
  stored under its own id (the code addresses a product by \<open>document(product["id"])\<close>).
\<close>

definition well_keyed :: "firestore \<Rightarrow> bool" where
  "well_keyed st =
     (distinct (map fst (product_docs st))
      \<and> (\<forall>(k, d) \<in> set (product_docs st). d ''id'' = Some (VStr k)))"

text \<open>The catalogue after the products with keys in \<open>K\<close> have been flipped to \<open>Done\<close>.\<close>

definition mark_done :: "string set \<Rightarrow> (string \<times> pydict) list \<Rightarrow> (string \<times> pydict) list" where
  "mark_done K docs =
     map (\<lambda>(k, d). if k \<in> K then (k, d(''is_emb'' \<mapsto> VStr ''D'')) else (k, d)) docs"

text \<open>
  The keys of the products that a run of the loop over \<open>ps\<close> stores before it ends,
  and the products that are not among them.
\<close>

fun stored_keys :: "'img services \<Rightarrow> firestore \<Rightarrow> pydict list \<Rightarrow> string set" where
  "stored_keys env st [] = {}"
| "stored_keys env st (p # ps) =
     (case fst (store_one env st p) of
        Stored \<Rightarrow> (case p ''id'' of Some (VStr k) \<Rightarrow> insert k (stored_keys env st ps)
                                   | _ \<Rightarrow> stored_keys env st ps)
      | Skipped \<Rightarrow> stored_keys env st ps
      | Aborted e \<Rightarrow> {})"

definition unmarked :: "string set \<Rightarrow> pydict \<Rightarrow> bool" where
  "unmarked K p = (case p ''id'' of Some (VStr k) \<Rightarrow> k \<notin> K | _ \<Rightarrow> True)"


section \<open>Properties of a search, as predicates, and example stores\<close>

text \<open>
  The field a query type searches (line 124), the score a hit exposes (the sort key of
  line 172), and the condition that no joined product document has a field named
  \<open>similarity_score\<close> of its own, which would replace the recomputed one in the hit.
\<close>

definition field_of :: "string \<Rightarrow> string" where
  "field_of query_type = (if query_type = ''image'' then ''image_embedding'' else ''text_embedding'')"

definition score_of :: "pydict \<Rightarrow> real" where
  "score_of hit = num_of (get_default hit ''similarity_score'' (VNum 0))"

definition no_score_field :: "lookup \<Rightarrow> pydict list \<Rightarrow> bool" where
  "no_score_field get_product docs =
     (\<forall>d \<in> set docs. join_product get_product (get d ''id'') ''similarity_score'' = None)"

definition fixed_store :: "pydict list \<Rightarrow> nearest" where
  "fixed_store docs field query limit = Inr docs"

definition no_products :: lookup where
  "no_products key = Inr None"

definition summary :: "pydict \<Rightarrow> val option \<times> val option" where
  "summary hit = (hit ''id'', hit ''similarity_score'')"

definition candidates_negative :: "pydict list" where
  "candidates_negative =
     [[''id'' \<mapsto> VStr ''A'', ''text_embedding'' \<mapsto> VVec [-1], ''image_embedding'' \<mapsto> VVec [1]],
      [''id'' \<mapsto> VStr ''B'', ''image_embedding'' \<mapsto> VVec [1]]]"

definition candidates_pair :: "pydict list" where
  "candidates_pair =
     [embedding_doc_data (VStr ''A'') [1, 2] [3, 4]]"


text \<open>The key of the merge (line 97), and a hit as a search returns it.\<close>

definition hit_id :: "pydict \<Rightarrow> val" where
  "hit_id hit = get hit ''id''"

definition example_hit :: "string \<Rightarrow> real \<Rightarrow> string \<Rightarrow> pydict" where
  "example_hit k score name =
     [''id'' \<mapsto> VStr k, ''similarity_score'' \<mapsto> VNum score, ''product_name'' \<mapsto> VStr name]"


text \<open>
  A store of two products, and models that embed every text as \<open>[1, 0]\<close> and every
  image as \<open>[0, 1]\<close>.
\<close>

definition candidates_two :: "pydict list" where
  "candidates_two =
     [embedding_doc_data (VStr ''A'') [3, 4] [0, 1],
      embedding_doc_data (VStr ''B'') [1, 0] [1, 0]]"

definition text_model_x :: "val \<Rightarrow> exn + real list" where
  "text_model_x text = Inr [1, 0]"

definition image_model_y :: "string \<Rightarrow> exn + real list" where
  "image_model_y img = Inr [0, 1]"


text \<open>A store that cannot be reached, and a text model that cannot be reached.\<close>

definition failing_store :: nearest where
  "failing_store field query limit = Inl StoreError"

definition failing_text_model :: "val \<Rightarrow> exn + real list" where
  "failing_text_model text = Inl ProviderError"


text \<open>
  The stored vectors a hit carries, the condition that a hit carries both with length
  \<open>n\<close>, and (below) a store of two products with unit vectors.
\<close>

definition text_vector :: "pydict \<Rightarrow> real list" where
  "text_vector hit = (case get hit ''text_embedding'' of VVec v \<Rightarrow> v | _ \<Rightarrow> [])"

definition image_vector :: "pydict \<Rightarrow> real list" where
  "image_vector hit = (case get hit ''image_embedding'' of VVec v \<Rightarrow> v | _ \<Rightarrow> [])"

fun vector_of_length :: "nat \<Rightarrow> val option \<Rightarrow> bool" where
  "vector_of_length n (Some (VVec v)) = (length v = n)"
| "vector_of_length n v = False"

definition both_vectors :: "nat \<Rightarrow> pydict \<Rightarrow> bool" where
  "both_vectors n hit =
     (vector_of_length n (hit ''text_embedding'') \<and> vector_of_length n (hit ''image_embedding''))"

text \<open>
  Lines 137--141: the product names of the first five results are joined for the log
  line, which raises \<open>TypeError\<close> when one of them is not a string; otherwise the
  results are returned.
\<close>

definition report_top :: "pydict list \<Rightarrow> exn + pydict list" where
  "report_top top_results =
     (if top_results \<noteq> [] \<and>
         \<not> join_ok (map (\<lambda>r. get_default r ''product_name'' (VStr ''Unknown''))
                     (slice_to top_results 5))
      then Inl TypeError
      else Inr top_results)"

text \<open>
  A stored field that the loop of lines 103--115 can combine: a vector, or a value
  that counts as absent. The combined embedding a hit carries. Four candidates: with
  both vectors, with the text vector only, with the image vector only, with none.
\<close>

fun vector_or_falsy :: "val \<Rightarrow> bool" where
  "vector_or_falsy (VVec v) = True"
| "vector_or_falsy v = (\<not> truthy v)"

definition combined_of :: "pydict \<Rightarrow> val option" where
  "combined_of hit = hit ''combined_embedding''"

definition candidates_mixed :: "pydict list" where
  "candidates_mixed =
     [embedding_doc_data (VStr ''A'') [1, 2] [3, 4],
      [''id'' \<mapsto> VStr ''B'', ''text_embedding'' \<mapsto> VVec [1, 2]],
      [''id'' \<mapsto> VStr ''C'', ''text_embedding'' \<mapsto> VNone, ''image_embedding'' \<mapsto> VVec [3, 4]],
      [''id'' \<mapsto> VStr ''E'']]"

definition candidates_unit :: "pydict list" where
  "candidates_unit =
     [embedding_doc_data (VStr ''A'') [0, 1] [0, 1],
      embedding_doc_data (VStr ''B'') [1, 0] [1, 0]]"


section \<open>Verified properties\<close>

subsection \<open>Indexing: a failed image download\<close>

text \<open>
  C1. A per-item failure should skip that record only. In the code the image download
  and decoding (line 88) stand outside the inner \<open>try\<close>: with two pending products of
  which the first has no usable image URL, the run ends at the first product and
  returns \<open>False\<close>; the second product, which would be stored when processed, is never
  reached and stays pending, and nothing is written.
\<close>

theorem image_failure_aborts_batch:
  "store_products demo_services catalogue_bad_image = (False, catalogue_bad_image)
   \<and> pending catalogue_bad_image = map snd (product_docs catalogue_bad_image)
   \<and> fst (store_one demo_services catalogue_bad_image
            (snd (product ''p2'' ''ramen'' ''http://img/2''))) = Stored"
  by (simp add: store_products_def store_products_run_def demo_services_def
      catalogue_bad_image_def product_def
      pending_def store_one_def store_embedding_def get_default_def document_set_def
      document_update_def embedding_doc_data_def)

subsection \<open>Indexing: the flag follows the write\<close>

lemma done_after_write_append:
  "done_after_write xs \<Longrightarrow> done_after_write ys \<Longrightarrow> done_after_write (xs @ ys)"
  by (induction xs rule: done_after_write.induct)
     ((cases ys rule: done_after_write.cases; simp)+)

lemma document_Inr: "document v = Inr k \<longleftrightarrow> v = VStr k \<and> k \<noteq> []"
  by (cases v) auto

lemma nonempty_iff: "nonempty x \<longleftrightarrow> (\<exists>v. x = Some v \<and> v \<noteq> [])"
  by (cases x) auto

lemma map_of_upsert: "map_of (upsert k d xs) = (map_of xs)(k \<mapsto> d)"
  by (induction xs) (auto simp: fun_eq_iff)




lemma store_embedding_cases:
  assumes "store_embedding env st pid t i = (out, st')"
  shows "st' = st \<and> out \<noteq> Stored
       \<or> (\<exists>k. pid = VStr k \<and> (\<exists>e. out = Aborted e) \<and>
            st' = st\<lparr>vector_docs := upsert k (embedding_doc_data (VStr k) t i) (vector_docs st),
                     journal := journal st @ [DocumentSet k (embedding_doc_data (VStr k) t i)]\<rparr>)
       \<or> (\<exists>k. pid = VStr k \<and> out = Stored \<and>
            k \<in> fst ` set (product_docs st) \<and>
            st' = st\<lparr>vector_docs := upsert k (embedding_doc_data (VStr k) t i) (vector_docs st),
                     product_docs := map (\<lambda>(k', d). if k' = k then (k', d(''is_emb'' \<mapsto> VStr ''D'')) else (k', d))
                              (product_docs st),
                     journal := journal st @ [DocumentSet k (embedding_doc_data (VStr k) t i), MarkedDone k]\<rparr>)"
  using assms
  unfolding store_embedding_def document_set_def document_update_def
  by (auto simp: document_Inr split: sum.splits option.splits if_splits)

lemma store_one_cases:
  assumes "store_one env st p = (out, st')"
  shows "st' = st \<and> out \<noteq> Stored
       \<or> (\<exists>pid t i. p ''id'' = Some pid \<and> t \<noteq> [] \<and> i \<noteq> [] \<and>
             store_embedding env st pid t i = (out, st'))"
  using assms
  unfolding store_one_def Let_def
  by (auto simp: nonempty_iff split: sum.splits option.splits if_splits)


lemma embedding_document_data:
  "t \<noteq> [] \<Longrightarrow> i \<noteq> [] \<Longrightarrow> embedding_document k (embedding_doc_data (VStr k) t i)"
  by (simp add: embedding_document_def embedding_doc_data_def)

lemma store_one_journal:
  assumes "store_one env st p = (out, st')" and "done_after_write (journal st)"
  shows "done_after_write (journal st')"
proof -
  from store_one_cases[OF assms(1)] consider "st' = st"
    | pid t i where "t \<noteq> []" "i \<noteq> []" "store_embedding env st pid t i = (out, st')"
    by blast
  then show ?thesis
  proof cases
    case 1
    with assms(2) show ?thesis by simp
  next
    case 2
    from store_embedding_cases[OF 2(3)] 2(1,2) assms(2) show ?thesis
      by (auto intro!: done_after_write_append simp: embedding_document_data)
  qed
qed

lemma has_document_upsert:
  "embedding_document k doc \<Longrightarrow> has_embedding_document k' st \<or> k' = k \<Longrightarrow>
   has_embedding_document k' (st\<lparr>vector_docs := upsert k doc (vector_docs st), journal := j\<rparr>)"
  by (auto simp: has_embedding_document_def map_of_upsert split: option.splits)

lemma has_document_upsert_flag:
  "embedding_document k doc \<Longrightarrow> has_embedding_document k' st \<or> k' = k \<Longrightarrow>
   has_embedding_document k' (st\<lparr>vector_docs := upsert k doc (vector_docs st), product_docs := ps, journal := j\<rparr>)"
  by (auto simp: has_embedding_document_def map_of_upsert split: option.splits)

lemma store_one_flagged:
  assumes "store_one env st p = (out, st')" and "flagged_with_document st0 st"
  shows "flagged_with_document st0 st'"
proof -
  from store_one_cases[OF assms(1)] consider "st' = st"
    | pid t i where "t \<noteq> []" "i \<noteq> []" "store_embedding env st pid t i = (out, st')"
    by blast
  then show ?thesis
  proof cases
    case 1
    with assms(2) show ?thesis by simp
  next
    case 2
    from store_embedding_cases[OF 2(3)] consider "st' = st"
      | k where "st' = st\<lparr>vector_docs := upsert k (embedding_doc_data (VStr k) t i) (vector_docs st),
                     journal := journal st @ [DocumentSet k (embedding_doc_data (VStr k) t i)]\<rparr>"
      | k where "st' = st\<lparr>vector_docs := upsert k (embedding_doc_data (VStr k) t i) (vector_docs st),
                     product_docs := map (\<lambda>(k', d). if k' = k then (k', d(''is_emb'' \<mapsto> VStr ''D'')) else (k', d))
                              (product_docs st),
                     journal := journal st @ [DocumentSet k (embedding_doc_data (VStr k) t i), MarkedDone k]\<rparr>"
      by blast
    then show ?thesis
    proof cases
      case 1
      with assms(2) show ?thesis by simp
    next
      case (2 k)
      have doc: "embedding_document k (embedding_doc_data (VStr k) t i)"
        using \<open>t \<noteq> []\<close> \<open>i \<noteq> []\<close> by (rule embedding_document_data)
      show ?thesis
        using assms(2) unfolding flagged_with_document_def 2
        by (auto intro!: has_document_upsert[OF doc])
    next
      case (3 k)
      have doc: "embedding_document k (embedding_doc_data (VStr k) t i)"
        using \<open>t \<noteq> []\<close> \<open>i \<noteq> []\<close> by (rule embedding_document_data)
      show ?thesis
        using assms(2) unfolding flagged_with_document_def 3
        by (auto intro!: has_document_upsert_flag[OF doc] split: if_splits)
    qed
  qed
qed

lemma store_loop_journal:
  "store_loop env st n ps = (r, m, st') \<Longrightarrow> done_after_write (journal st) \<Longrightarrow>
   done_after_write (journal st')"
proof (induction ps arbitrary: st n)
  case Nil
  then show ?case by simp
next
  case (Cons p ps)
  obtain out st1 where one: "store_one env st p = (out, st1)" by (cases "store_one env st p")
  have j1: "done_after_write (journal st1)" using store_one_journal[OF one Cons.prems(2)] .
  show ?case
  proof (cases out)
    case Stored
    with Cons.prems(1) one have "store_loop env st1 (n + 1) ps = (r, m, st')" by simp
    from Cons.IH[OF this j1] show ?thesis .
  next
    case Skipped
    with Cons.prems(1) one have "store_loop env st1 n ps = (r, m, st')" by simp
    from Cons.IH[OF this j1] show ?thesis .
  next
    case (Aborted e)
    with Cons.prems(1) one have "st' = st1" by simp
    with j1 show ?thesis by simp
  qed
qed

lemma store_loop_flagged:
  "store_loop env st n ps = (r, m, st') \<Longrightarrow> flagged_with_document st0 st \<Longrightarrow>
   flagged_with_document st0 st'"
proof (induction ps arbitrary: st n)
  case Nil
  then show ?case by simp
next
  case (Cons p ps)
  obtain out st1 where one: "store_one env st p = (out, st1)" by (cases "store_one env st p")
  have j1: "flagged_with_document st0 st1" using store_one_flagged[OF one Cons.prems(2)] .
  show ?case
  proof (cases out)
    case Stored
    with Cons.prems(1) one have "store_loop env st1 (n + 1) ps = (r, m, st')" by simp
    from Cons.IH[OF this j1] show ?thesis .
  next
    case Skipped
    with Cons.prems(1) one have "store_loop env st1 n ps = (r, m, st')" by simp
    from Cons.IH[OF this j1] show ?thesis .
  next
    case (Aborted e)
    with Cons.prems(1) one have "st' = st1" by simp
    with j1 show ?thesis by simp
  qed
qed

lemma store_products_loop:
  assumes "store_products env st = (ok, st')"
  shows "st' = st \<or> (\<exists>r m. store_loop env st 0 (pending st) = (r, m, st'))"
  using assms unfolding store_products_def store_products_run_def
  by (auto split: option.splits prod.splits)

text \<open>
  C2. In a run of \<open>store_products\<close> every flip of a product to \<open>Done\<close> directly
  follows the successful write of that product's embedding document \<open>{id,
  text_embedding, image_embedding}\<close>; every product found \<open>Done\<close> afterwards was
  \<open>Done\<close> before or has its embedding document in the vector collection; and a
  product one of whose embeddings comes back empty is skipped with the store unchanged.
\<close>

theorem done_only_after_write:
  assumes "store_products env st = (ok, st')" and "journal st = []"
  shows "done_after_write (journal st')
       \<and> (\<forall>(k, d) \<in> set (product_docs st'). d ''is_emb'' = Some (VStr ''D'') \<longrightarrow>
             (k, d) \<in> set (product_docs st) \<or> has_embedding_document k st')
       \<and> (p ''product_name'' = Some name \<and> encode_text_of env name = Inr t
            \<and> fetch_image env (get_default p ''image_url'' (VStr [])) = Inr img
            \<and> encode_image_of env img = Inr i \<and> (\<not> nonempty t \<or> \<not> nonempty i)
          \<longrightarrow> store_one env s p = (Skipped, s))"
proof -
  have start: "flagged_with_document st st" by (auto simp: flagged_with_document_def)
  have j0: "done_after_write (journal st)" using assms(2) by simp
  from store_products_loop[OF assms(1)] have "done_after_write (journal st') \<and> flagged_with_document st st'"
    using start j0 store_loop_journal store_loop_flagged by blast
  moreover have "p ''product_name'' = Some name \<and> encode_text_of env name = Inr t
            \<and> fetch_image env (get_default p ''image_url'' (VStr [])) = Inr img
            \<and> encode_image_of env img = Inr i \<and> (\<not> nonempty t \<or> \<not> nonempty i)
          \<longrightarrow> store_one env s p = (Skipped, s)"
    by (auto simp: store_one_def)
  ultimately show ?thesis unfolding flagged_with_document_def by blast
qed

theorem done_only_after_write_witness:
  "journal catalogue_ok = []
   \<and> map (\<lambda>e. case e of DocumentSet k d \<Rightarrow> (k, False) | MarkedDone k \<Rightarrow> (k, True))
        (journal (snd (store_products demo_services catalogue_ok))) = [(''p1'', False), (''p1'', True)]
   \<and> done_after_write (journal (snd (store_products demo_services catalogue_ok)))
   \<and> has_embedding_document ''p1'' (snd (store_products demo_services catalogue_ok))
   \<and> store_one demo_services catalogue_ok (snd (product ''p2'' ''broken'' ''http://img/2''))
       = (Skipped, catalogue_ok)"
  using done_only_after_write [of demo_services catalogue_ok
      "fst (store_products demo_services catalogue_ok)"
      "snd (store_products demo_services catalogue_ok)"
      "snd (product ''p2'' ''broken'' ''http://img/2'')" "VStr ''broken''" None "''http://img/2''"
      "Some [0, 1]" catalogue_ok]
  by (simp add: store_products_def store_products_run_def demo_services_def catalogue_ok_def
      product_def
      pending_def store_one_def store_embedding_def get_default_def document_set_def
      document_update_def embedding_doc_data_def has_embedding_document_def embedding_document_def)

subsection \<open>Indexing: a second run\<close>

lemma store_embedding_keys:
  "store_embedding env st pid t i = (out, st') \<Longrightarrow>
   map fst (product_docs st') = map fst (product_docs st)"
  by (drule store_embedding_cases) (auto simp: comp_def case_prod_unfold)

lemma store_one_keys:
  "store_one env st p = (out, st') \<Longrightarrow> map fst (product_docs st') = map fst (product_docs st)"
  by (drule store_one_cases) (auto dest: store_embedding_keys)

lemma fst_store_embedding:
  "fst (store_embedding env s pid t i) =
     (case document pid of
        Inl e \<Rightarrow> Aborted e
      | Inr key \<Rightarrow>
          (case set_fault env key of
             Some e \<Rightarrow> Aborted e
           | None \<Rightarrow>
               (case update_fault env key of
                  Some e \<Rightarrow> Aborted e
                | None \<Rightarrow> if key \<in> set (map fst (product_docs s)) then Stored
                          else Aborted NotFound)))"
  unfolding store_embedding_def document_set_def document_update_def
  by (cases "document pid"; simp split: option.splits)

lemma store_embedding_outcome_keys:
  assumes "map fst (product_docs s) = map fst (product_docs s')"
  shows "fst (store_embedding env s pid t i) = fst (store_embedding env s' pid t i)"
  unfolding fst_store_embedding assms ..

lemma store_one_outcome_keys:
  assumes "map fst (product_docs s) = map fst (product_docs s')"
  shows "fst (store_one env s p) = fst (store_one env s' p)"
  unfolding store_one_def Let_def
  by (simp split: sum.splits option.splits add: store_embedding_outcome_keys[OF assms])

lemma stored_keys_cong:
  "map fst (product_docs s) = map fst (product_docs s') \<Longrightarrow>
   stored_keys env s ps = stored_keys env s' ps"
  by (induction ps)
     (simp_all add: store_one_outcome_keys[of s s'] split: outcome.splits option.splits val.splits)


lemma mark_done_insert:
  "mark_done K (mark_done {k} docs) = mark_done (insert k K) docs"
  by (induction docs) (auto simp: mark_done_def)

lemma mark_done_empty: "mark_done {} docs = docs"
  by (induction docs) (auto simp: mark_done_def)

lemma store_one_Stored:
  assumes "store_one env st p = (Stored, st')"
  shows "\<exists>k. p ''id'' = Some (VStr k) \<and> product_docs st' = mark_done {k} (product_docs st)"
proof -
  from store_one_cases[OF assms] obtain pid t i
    where "p ''id'' = Some pid" "store_embedding env st pid t i = (Stored, st')"
    by blast
  with store_embedding_cases[of env st pid t i Stored st'] show ?thesis
    by (auto simp: mark_done_def)
qed

lemma store_one_not_Stored:
  assumes "store_one env st p = (out, st')" "out \<noteq> Stored"
  shows "product_docs st' = product_docs st"
proof -
  from store_one_cases[OF assms(1)] consider "st' = st"
    | pid t i where "store_embedding env st pid t i = (out, st')"
    by blast
  then show ?thesis
  proof cases
    case 1 then show ?thesis by simp
  next
    case 2
    from store_embedding_cases[OF 2] assms(2) show ?thesis by auto
  qed
qed

lemma store_one_Skipped:
  assumes "store_one env st p = (Skipped, st')"
  shows "st' = st"
proof -
  from store_one_cases[OF assms] consider "st' = st"
    | pid t i where "store_embedding env st pid t i = (Skipped, st')"
    by blast
  then show ?thesis
  proof cases
    case 1 then show ?thesis by simp
  next
    case 2
    from store_embedding_cases[OF 2] show ?thesis by auto
  qed
qed

lemma store_loop_marks:
  "store_loop env st n ps = (r, m, st') \<Longrightarrow>
   product_docs st' = mark_done (stored_keys env st ps) (product_docs st)"
proof (induction ps arbitrary: st n)
  case Nil
  then show ?case by (simp add: mark_done_empty)
next
  case (Cons p ps)
  obtain out st1 where one: "store_one env st p = (out, st1)" by (cases "store_one env st p")
  have keys: "map fst (product_docs st1) = map fst (product_docs st)"
    using store_one_keys[OF one] .
  show ?case
  proof (cases out)
    case Stored
    with one obtain k where k: "p ''id'' = Some (VStr k)"
        "product_docs st1 = mark_done {k} (product_docs st)"
      using store_one_Stored by blast
    from Stored Cons.prems one have "store_loop env st1 (n + 1) ps = (r, m, st')" by simp
    from Cons.IH[OF this] have "product_docs st' = mark_done (stored_keys env st1 ps) (product_docs st1)" .
    also have "stored_keys env st1 ps = stored_keys env st ps"
      using stored_keys_cong[OF keys] .
    finally show ?thesis using k one Stored by (simp add: mark_done_insert)
  next
    case Skipped
    with one have "st1 = st" using store_one_Skipped by blast
    with Skipped Cons.prems one have "store_loop env st n ps = (r, m, st')" by simp
    from Cons.IH[OF this] show ?thesis using one Skipped by simp
  next
    case (Aborted e)
    with Cons.prems one have "st' = st1" by simp
    moreover have "product_docs st1 = product_docs st"
      using store_one_not_Stored[OF one] Aborted by simp
    ultimately show ?thesis using one Aborted by (simp add: mark_done_empty)
  qed
qed


lemma map_fst_mark_done: "map fst (mark_done K docs) = map fst docs"
  by (induction docs) (auto simp: mark_done_def)

lemma pending_mark_done:
  assumes "\<forall>(k, d) \<in> set docs. d ''id'' = Some (VStr k)"
  shows "map snd (filter (\<lambda>(k, d). d ''is_emb'' = Some (VStr ''R'')) (mark_done K docs))
       = filter (unmarked K) (map snd (filter (\<lambda>(k, d). d ''is_emb'' = Some (VStr ''R'')) docs))"
  using assms by (induction docs) (auto simp: mark_done_def unmarked_def)

lemma stored_keys_ids:
  "k \<in> stored_keys env st ps \<Longrightarrow> \<exists>p \<in> set ps. p ''id'' = Some (VStr k)"
  by (induction ps) (auto split: outcome.splits option.splits val.splits)

lemma filter_unmarked_insert:
  assumes "\<forall>p \<in> set ps. p ''id'' \<noteq> Some (VStr k)"
  shows "filter (unmarked (insert k K)) ps = filter (unmarked K) ps"
  using assms by (intro filter_cong) (auto simp: unmarked_def split: option.splits val.splits)

lemma second_loop:
  assumes "distinct (map (\<lambda>p. p ''id'') ps)"
    and "map fst (product_docs s2) = map fst (product_docs st)"
    and "store_loop env s2 c (filter (unmarked (stored_keys env st ps)) ps) = (r, m, s2')"
  shows "m = c \<and> product_docs s2' = product_docs s2"
  using assms
proof (induction ps arbitrary: s2)
  case Nil
  then show ?case by simp
next
  case (Cons p ps)
  have fresh: "\<forall>q \<in> set ps. q ''id'' \<noteq> p ''id''"
  proof
    fix q assume "q \<in> set ps"
    then have "q ''id'' \<in> set (map (\<lambda>p. p ''id'') ps)" by simp
    moreover have "p ''id'' \<notin> set (map (\<lambda>p. p ''id'') ps)" using Cons.prems(1) by simp
    ultimately show "q ''id'' \<noteq> p ''id''" by metis
  qed
  have dist: "distinct (map (\<lambda>p. p ''id'') ps)" using Cons.prems(1) by simp
  have same: "fst (store_one env s2 p) = fst (store_one env st p)"
    using store_one_outcome_keys[OF Cons.prems(2)] .
  show ?case
  proof (cases "fst (store_one env st p)")
    case Stored
    then obtain st1 where "store_one env st p = (Stored, st1)" by (cases "store_one env st p") auto
    then obtain k where k: "p ''id'' = Some (VStr k)" using store_one_Stored by blast
    have "\<forall>q \<in> set ps. q ''id'' \<noteq> Some (VStr k)" using fresh k by simp
    from filter_unmarked_insert[OF this]
    have "filter (unmarked (stored_keys env st (p # ps))) (p # ps)
        = filter (unmarked (stored_keys env st ps)) ps"
      using Stored k by (simp add: unmarked_def)
    with Cons.prems(3) have "store_loop env s2 c (filter (unmarked (stored_keys env st ps)) ps) = (r, m, s2')"
      by simp
    from Cons.IH[OF dist Cons.prems(2) this] show ?thesis .
  next
    case Skipped
    have keep: "unmarked (stored_keys env st ps) p"
      using fresh stored_keys_ids[of _ env st ps]
      by (fastforce simp: unmarked_def split: option.splits val.splits)
    obtain s3 where s3: "store_one env s2 p = (Skipped, s3)"
      using same Skipped by (cases "store_one env s2 p") auto
    then have "s3 = s2" using store_one_Skipped by blast
    with s3 keep Skipped Cons.prems(3)
    have "store_loop env s2 c (filter (unmarked (stored_keys env st ps)) ps) = (r, m, s2')"
      by simp
    from Cons.IH[OF dist Cons.prems(2) this] show ?thesis .
  next
    case (Aborted e)
    obtain s3 where s3: "store_one env s2 p = (Aborted e, s3)"
      using same Aborted by (cases "store_one env s2 p") auto
    have "product_docs s3 = product_docs s2" using store_one_not_Stored[OF s3] by simp
    with s3 Aborted Cons.prems(3) show ?thesis by (simp add: unmarked_def split: option.splits val.splits)
  qed
qed

lemma distinct_ids_filter:
  "distinct (map fst docs) \<Longrightarrow> \<forall>(k, d) \<in> set docs. d ''id'' = Some (VStr k) \<Longrightarrow>
   distinct (map (\<lambda>p. p ''id'') (map snd (filter P docs)))"
proof (induction docs)
  case Nil
  then show ?case by simp
next
  case (Cons kd docs)
  obtain k d where kd: "kd = (k, d)" by (cases kd)
  have "\<forall>(k', d') \<in> set docs. d' ''id'' \<noteq> d ''id''"
    using Cons.prems kd by force
  then have "d ''id'' \<notin> (\<lambda>p. p ''id'') ` snd ` set (filter P docs)" by force
  with Cons kd show ?case by (simp add: image_image)
qed

lemma well_keyed_pending_ids:
  "well_keyed st \<Longrightarrow> distinct (map (\<lambda>p. p ''id'') (pending st))"
  unfolding pending_def well_keyed_def using distinct_ids_filter by blast

text \<open>
  C8. On a catalogue whose products are stored under their unique ids, a second run
  with the same services right after a first one stores nothing: its counter stays at
  0 and it flips no product. The second run selects only products that were pending
  before the first run and are still pending, so no product stored by the first run
  (all of them flipped to \<open>Done\<close>) is embedded again.
\<close>

theorem second_run_stores_nothing:
  assumes "well_keyed st"
    and "store_products_run env st = (r1, m1, st1)"
    and "store_products_run env st1 = (r2, m2, st2)"
  shows "m2 = 0 \<and> product_docs st2 = product_docs st1 \<and> set (pending st1) \<subseteq> set (pending st)"
proof (cases "query_fault env")
  case (Some e)
  then have "store_products_run env st = (Some e, 0, st)"
    and "store_products_run env st1 = (Some e, 0, st1)"
    by (simp_all add: store_products_run_def)
  with assms(2,3) show ?thesis by auto
next
  case None
  let ?K = "stored_keys env st (pending st)"
  from None assms(2) have run1: "store_loop env st 0 (pending st) = (r1, m1, st1)"
    by (simp add: store_products_run_def)
  from None assms(3) have run2: "store_loop env st1 0 (pending st1) = (r2, m2, st2)"
    by (simp add: store_products_run_def)
  have docs1: "product_docs st1 = mark_done ?K (product_docs st)"
    using store_loop_marks[OF run1] .
  have ids: "\<forall>(k, d) \<in> set (product_docs st). d ''id'' = Some (VStr k)"
    using assms(1) by (simp add: well_keyed_def)
  have pend1: "pending st1 = filter (unmarked ?K) (pending st)"
    unfolding pending_def docs1 using pending_mark_done[OF ids] .
  have keys: "map fst (product_docs st1) = map fst (product_docs st)"
    by (simp add: docs1 map_fst_mark_done)
  from run2 have "store_loop env st1 0 (filter (unmarked ?K) (pending st)) = (r2, m2, st2)"
    by (simp add: pend1)
  from second_loop[OF well_keyed_pending_ids[OF assms(1)] keys this]
  show ?thesis by (auto simp: pend1)
qed

theorem second_run_stores_nothing_witness:
  "well_keyed catalogue_ok
   \<and> fst (snd (store_products_run demo_services catalogue_ok)) = 1
   \<and> fst (snd (store_products_run demo_services
                  (snd (snd (store_products_run demo_services catalogue_ok))))) = 0
   \<and> set (pending (snd (snd (store_products_run demo_services catalogue_ok))))
       \<subseteq> set (pending catalogue_ok)"
proof -
  have wk: "well_keyed catalogue_ok"
    by (simp add: well_keyed_def catalogue_ok_def product_def)
  have first: "fst (snd (store_products_run demo_services catalogue_ok)) = 1"
    by (simp add: store_products_run_def demo_services_def catalogue_ok_def
        product_def pending_def store_one_def store_embedding_def get_default_def document_set_def
        document_update_def embedding_doc_data_def)
  have r1: "store_products_run demo_services catalogue_ok =
      (fst (store_products_run demo_services catalogue_ok),
       fst (snd (store_products_run demo_services catalogue_ok)),
       snd (snd (store_products_run demo_services catalogue_ok)))"
    by simp
  have r2: "store_products_run demo_services
        (snd (snd (store_products_run demo_services catalogue_ok))) =
      (fst (store_products_run demo_services
              (snd (snd (store_products_run demo_services catalogue_ok)))),
       fst (snd (store_products_run demo_services
              (snd (snd (store_products_run demo_services catalogue_ok))))),
       snd (snd (store_products_run demo_services
              (snd (snd (store_products_run demo_services catalogue_ok))))))"
    by simp
  from second_run_stores_nothing [OF wk r1 r2] wk first show ?thesis
    by blast
qed

subsection \<open>Search: ranking by the recomputed score\<close>

lemma sort_reverse_sorted: "sorted (rev (map f (sort_reverse f xs)))"
  by (simp add: sort_reverse_def rev_map [symmetric])

lemma sort_reverse_stable:
  "filter (\<lambda>x. f x = k) (sort_reverse f xs) = filter (\<lambda>x. f x = k) xs"
  by (simp add: sort_reverse_def rev_filter [symmetric] sort_key_stable)

lemma mset_sort_reverse: "mset (sort_reverse f xs) = mset xs"
  by (simp add: sort_reverse_def)

lemma hit_score:
  "join_product gp (get d ''id'') ''similarity_score'' = None \<Longrightarrow>
   combined_result gp q field d ''similarity_score'' = Some (VNum (candidate_score q field d))"
  by (simp add: combined_result_def Let_def map_add_def)

lemma vector_search_sorted_eq:
  assumes "find_nearest (field_of query_type) q limit = Inr docs"
    and "no_score_field gp docs"
  shows "vector_search find_nearest gp q limit query_type
       = sort_reverse score_of (map (combined_result gp q (field_of query_type)) docs)"
proof -
  have "\<forall>x \<in> set (map (combined_result gp q (field_of query_type)) docs).
          is_num (get_default x ''similarity_score'' (VNum 0))"
    using assms(2) by (auto simp: no_score_field_def get_default_def hit_score)
  then show ?thesis
    using assms(1)
    unfolding vector_search_def sort_reverse_by_def field_of_def [symmetric] Let_def score_of_def
    by simp
qed

lemma candidate_score_malformed:
  "stored_vector (get d field) = None \<or> stored_vector (get d field) = Some []
     \<or> (\<exists>v. stored_vector (get d field) = Some v \<and> length v \<noteq> length q)
   \<Longrightarrow> candidate_score q field d = 0"
  by (auto simp: candidate_score_def calculate_dot_product_score_def)

lemma candidate_score_dot:
  "get d field = VVec v \<Longrightarrow> v \<noteq> [] \<Longrightarrow> length v = length q \<Longrightarrow>
   candidate_score q field d = dot q v"
  by (simp add: candidate_score_def calculate_dot_product_score_def)


lemmas search_eval = vector_search_def sort_reverse_by_def sort_reverse_def combined_result_def
  candidate_score_def calculate_dot_product_score_def dot_def join_product_def get_def
  get_default_def fixed_store_def no_products_def embedding_doc_data_def Let_def

text \<open>
  C4, as stated, fails on its last part: a candidate without a stored embedding gets
  score 0 and is ranked by it, so it stands above a candidate whose dot product is
  negative instead of at the bottom.
\<close>

theorem zero_score_above_negative:
  "map summary
     (vector_search (fixed_store candidates_negative) no_products [1] 30 ''text'')
   = [(Some (VStr ''B''), Some (VNum 0)), (Some (VStr ''A''), Some (VNum (- 1)))]"
  by (simp add: search_eval candidates_negative_def summary_def)

text \<open>
  C4, amended. When the store answers the query and no joined product document has a
  \<open>similarity_score\<close> field of its own, the result of \<open>vector_search\<close> holds exactly
  one hit per candidate, each hit exposes the score recomputed from the query and the
  candidate's stored vector, the hits are in descending order of that score whatever
  order the store returned, and hits of equal score keep the store's order. The score
  is 0 for a candidate whose stored vector is missing, empty or of another length than
  the query (such a hit stands below every hit of positive score and above every hit
  of negative score), and the dot product otherwise.
\<close>

theorem vector_search_ranked:
  assumes "find_nearest (field_of query_type) q limit = Inr docs"
    and "no_score_field gp docs"
  shows "mset (vector_search find_nearest gp q limit query_type)
           = mset (map (combined_result gp q (field_of query_type)) docs)
       \<and> map score_of (map (combined_result gp q (field_of query_type)) docs)
           = map (candidate_score q (field_of query_type)) docs
       \<and> sorted (rev (map score_of (vector_search find_nearest gp q limit query_type)))
       \<and> (\<forall>s. filter (\<lambda>h. score_of h = s) (vector_search find_nearest gp q limit query_type)
              = filter (\<lambda>h. score_of h = s) (map (combined_result gp q (field_of query_type)) docs))
       \<and> (\<forall>d \<in> set docs.
            (case get d (field_of query_type) of
               VVec v \<Rightarrow> v = [] \<or> length v \<noteq> length q | _ \<Rightarrow> True)
            \<longrightarrow> candidate_score q (field_of query_type) d = 0)
       \<and> (\<forall>d \<in> set docs. \<forall>v. get d (field_of query_type) = VVec v \<and> v \<noteq> [] \<and> length v = length q
            \<longrightarrow> candidate_score q (field_of query_type) d = dot q v)"
proof -
  note eq = vector_search_sorted_eq[of find_nearest query_type q limit docs gp, OF assms]
  have scores: "map score_of (map (combined_result gp q (field_of query_type)) docs)
           = map (candidate_score q (field_of query_type)) docs"
    using assms(2) by (auto simp: no_score_field_def score_of_def get_default_def hit_score)
  have zero: "\<forall>d \<in> set docs.
            (case get d (field_of query_type) of
               VVec v \<Rightarrow> v = [] \<or> length v \<noteq> length q | _ \<Rightarrow> True)
            \<longrightarrow> candidate_score q (field_of query_type) d = 0"
    by (auto intro!: candidate_score_malformed split: val.splits)
  show ?thesis
    unfolding eq using scores zero
    by (simp add: mset_sort_reverse sort_reverse_sorted sort_reverse_stable candidate_score_dot)
qed

theorem vector_search_ranked_witness:
  "fixed_store candidates_negative (field_of ''text'') [1] 30 = Inr candidates_negative
   \<and> no_score_field no_products candidates_negative
   \<and> map score_of (vector_search (fixed_store candidates_negative) no_products [1] 30 ''text'') = [0, - 1]
   \<and> sorted (rev (map score_of (vector_search (fixed_store candidates_negative) no_products [1] 30 ''text'')))"
proof -
  have a: "fixed_store candidates_negative (field_of ''text'') [1] 30 = Inr candidates_negative"
    by (simp add: fixed_store_def)
  have b: "no_score_field no_products candidates_negative"
    by (simp add: no_score_field_def candidates_negative_def join_product_def get_def no_products_def)
  have c: "map score_of (vector_search (fixed_store candidates_negative) no_products [1] 30 ''text'') = [0, - 1]"
    by (simp add: search_eval candidates_negative_def score_of_def)
  from vector_search_ranked [of "fixed_store candidates_negative" "''text''" "[1]" 30
      candidates_negative no_products, OF a b] a b c
  show ?thesis by blast
qed

subsection \<open>Search: vectors of different lengths\<close>

text \<open>
  C3, as stated, fails: there is no dimension check. Against a store whose vectors have
  length 2, a query of length 1 and a query of length 3 (whatever \<open>D\<close> is, one of
  them differs from it) both return the candidate as a regular hit with score 0, and the
  weighted sum of the fusion step silently truncates to the shorter vector.
\<close>

theorem no_dimension_check:
  "map summary
     (vector_search (fixed_store candidates_pair) no_products [1] 30 ''text'')
     = [(Some (VStr ''A''), Some (VNum 0))]
   \<and> map summary
     (vector_search (fixed_store candidates_pair) no_products [1, 1, 1] 30 ''text'')
     = [(Some (VStr ''A''), Some (VNum 0))]
   \<and> weighted_sum (1/2) [2, 4, 6] [4, 8] = [3, 6]"
  by (simp add: search_eval candidates_pair_def weighted_sum_def summary_def)

lemma weighted_sum_nth:
  "j < length i \<Longrightarrow> j < length t \<Longrightarrow>
   weighted_sum alpha i t ! j = alpha * i ! j + (1 - alpha) * t ! j"
  by (simp add: weighted_sum_def)

lemma length_weighted_sum: "length (weighted_sum alpha i t) = min (length i) (length t)"
  by (simp add: weighted_sum_def)

text \<open>
  C3, amended. A query of any length is searched: when the store answers and no joined
  product document has a \<open>similarity_score\<close> field of its own, the result has one hit
  per candidate, and a candidate whose stored vector differs in length from the query
  gets score 0 (the error of the dot product is absorbed). The weighted sum of the
  fusion step has the length of the shorter of its two vectors and is the
  per-dimension weighted sum on those dimensions.
\<close>

theorem mismatch_is_absorbed:
  assumes "find_nearest (field_of query_type) q limit = Inr docs"
    and "no_score_field gp docs"
  shows "length (vector_search find_nearest gp q limit query_type) = length docs
       \<and> (\<forall>d \<in> set docs. \<forall>v. get d (field_of query_type) = VVec v \<and> length v \<noteq> length q
            \<longrightarrow> combined_result gp q (field_of query_type) d ''similarity_score'' = Some (VNum 0))
       \<and> length (weighted_sum alpha i t) = min (length i) (length t)
       \<and> (\<forall>j < min (length i) (length t).
            weighted_sum alpha i t ! j = alpha * i ! j + (1 - alpha) * t ! j)"
proof -
  have "length (vector_search find_nearest gp q limit query_type) = length docs"
    using arg_cong[OF vector_search_sorted_eq[of find_nearest query_type q limit docs gp, OF assms], of length]
    by (simp add: sort_reverse_def)
  moreover have "\<forall>d \<in> set docs. \<forall>v. get d (field_of query_type) = VVec v \<and> length v \<noteq> length q
            \<longrightarrow> combined_result gp q (field_of query_type) d ''similarity_score'' = Some (VNum 0)"
    using assms(2) by (auto simp: no_score_field_def hit_score candidate_score_malformed)
  ultimately show ?thesis
    by (simp add: length_weighted_sum weighted_sum_nth)
qed

theorem mismatch_is_absorbed_witness:
  "fixed_store candidates_pair (field_of ''text'') [1] 30 = Inr candidates_pair
   \<and> no_score_field no_products candidates_pair
   \<and> length (vector_search (fixed_store candidates_pair) no_products [1] 30 ''text'') = 1
   \<and> combined_result no_products [1] (field_of ''text'') (embedding_doc_data (VStr ''A'') [1, 2] [3, 4])
        ''similarity_score'' = Some (VNum 0)
   \<and> length (weighted_sum (1/2) [2, 4, 6] [4, 8]) = 2"
proof -
  have a: "fixed_store candidates_pair (field_of ''text'') [1] 30 = Inr candidates_pair"
    by (simp add: fixed_store_def)
  have b: "no_score_field no_products candidates_pair"
    by (simp add: no_score_field_def candidates_pair_def join_product_def get_def no_products_def
        embedding_doc_data_def)
  from mismatch_is_absorbed [of "fixed_store candidates_pair" "''text''" "[1]" 30
      candidates_pair no_products "1/2" "[2, 4, 6]" "[4, 8]", OF a b] a b
  show ?thesis
    by (simp add: candidates_pair_def field_of_def get_def embedding_doc_data_def)
qed

subsection \<open>Fusion: the merge of the two result lists\<close>

lemma merge_loop_returns:
  "\<forall>h \<in> set docs. hashable (hit_id h) \<Longrightarrow> \<exists>res. merge_loop acc docs = Inr res"
  by (induction docs arbitrary: acc) (auto simp: hit_id_def Let_def)

lemma merge_loop_inv:
  assumes "merge_loop acc docs = Inr res"
    and "distinct (map fst acc)"
    and "\<forall>(k, d) \<in> set acc. k = hit_id d \<and> truthy k"
  shows "distinct (map fst res)
       \<and> (\<forall>(k, d) \<in> set res. k = hit_id d \<and> truthy k)
       \<and> (\<forall>(k, d) \<in> set res. (k, d) \<in> set acc
             \<or> k \<notin> fst ` set acc \<and> find (\<lambda>x. hit_id x = k) docs = Some d)
       \<and> (\<forall>x \<in> set docs. truthy (hit_id x) \<longrightarrow> hit_id x \<in> fst ` set res)
       \<and> set acc \<subseteq> set res"
  using assms
proof (induction docs arbitrary: acc)
  case Nil
  then show ?case by auto
next
  case (Cons doc docs)
  show ?case
  proof (cases "truthy (hit_id doc) \<and> hit_id doc \<notin> fst ` set acc")
    case False
    with Cons.prems(1) have run: "merge_loop acc docs = Inr res"
      by (auto simp: hit_id_def Let_def split: if_splits)
    note ih = Cons.IH[OF run Cons.prems(2,3)]
    from False ih show ?thesis by (auto simp: split: prod.splits)
  next
    case True
    with Cons.prems(1) have run: "merge_loop (acc @ [(hit_id doc, doc)]) docs = Inr res"
      by (auto simp: hit_id_def Let_def split: if_splits)
    have d: "distinct (map fst (acc @ [(hit_id doc, doc)]))"
      using True Cons.prems(2) by auto
    have w: "\<forall>(k, d) \<in> set (acc @ [(hit_id doc, doc)]). k = hit_id d \<and> truthy k"
      using True Cons.prems(3) by auto
    note ih = Cons.IH[OF run d w]
    have sub: "set acc \<subseteq> set res" and here: "(hit_id doc, doc) \<in> set res"
      using ih by auto
    have c3: "\<forall>(k, d) \<in> set res. (k, d) \<in> set acc
             \<or> k \<notin> fst ` set acc \<and> find (\<lambda>x. hit_id x = k) (doc # docs) = Some d"
    proof -
      have "(k, d) \<in> set acc
             \<or> k \<notin> fst ` set acc \<and> find (\<lambda>x. hit_id x = k) (doc # docs) = Some d"
        if in_res: "(k, d) \<in> set res" for k d
      proof (cases "(k, d) \<in> set acc")
        case True
        then show ?thesis by simp
      next
        case notacc: False
        have nk: "k \<notin> fst ` set acc"
        proof
          assume "k \<in> fst ` set acc"
          then obtain d' where "(k, d') \<in> set acc" by auto
          with sub have "(k, d') \<in> set res" by auto
          with in_res ih have "d' = d" by (meson eq_key_imp_eq_value)
          with \<open>(k, d') \<in> set acc\<close> notacc show False by simp
        qed
        from ih in_res have "(k, d) \<in> set (acc @ [(hit_id doc, doc)])
            \<or> k \<notin> fst ` set (acc @ [(hit_id doc, doc)])
               \<and> find (\<lambda>x. hit_id x = k) docs = Some d"
          by blast
        with notacc have "find (\<lambda>x. hit_id x = k) (doc # docs) = Some d" by auto
        with nk show ?thesis by simp
      qed
      then show ?thesis by blast
    qed
    have c4: "\<forall>x \<in> set (doc # docs). truthy (hit_id x) \<longrightarrow> hit_id x \<in> fst ` set res"
      using ih here by force
    from ih c3 c4 sub show ?thesis by blast
  qed
qed


lemma find_append_first:
  "find P (xs @ ys) = (case find P xs of None \<Rightarrow> find P ys | Some x \<Rightarrow> Some x)"
  by (induction xs) auto

text \<open>
  C9. The merge returns (its keys being hashable, as strings are) a list in which each
  id occurs once; every truthy id of either list occurs in it; every entry is the
  first hit with its id in the text results followed by the image results; and when
  the id occurs in the text results the entry is the text list's own hit (the same
  dictionary, with its metadata and its text score), so an image-list hit with that id
  is dropped.
\<close>

theorem merge_keeps_first:
  assumes "\<forall>h \<in> set (text_results @ image_results). hashable (hit_id h)"
  shows "\<exists>merged. merge_results text_results image_results = Inr merged
       \<and> distinct (map hit_id merged)
       \<and> (\<forall>x \<in> set (text_results @ image_results).
             truthy (hit_id x) \<longrightarrow> hit_id x \<in> set (map hit_id merged))
       \<and> (\<forall>h \<in> set merged. truthy (hit_id h)
             \<and> find (\<lambda>x. hit_id x = hit_id h) (text_results @ image_results) = Some h)
       \<and> (\<forall>h \<in> set merged. hit_id h \<in> hit_id ` set text_results
             \<longrightarrow> find (\<lambda>x. hit_id x = hit_id h) text_results = Some h)"
proof -
  from merge_loop_returns[OF assms] obtain res
    where res: "merge_loop [] (text_results @ image_results) = Inr res" by blast
  have inv: "distinct (map fst res)
       \<and> (\<forall>(k, d) \<in> set res. k = hit_id d \<and> truthy k)
       \<and> (\<forall>(k, d) \<in> set res. (k, d) \<in> set []
             \<or> k \<notin> fst ` set [] \<and> find (\<lambda>x. hit_id x = k) (text_results @ image_results) = Some d)
       \<and> (\<forall>x \<in> set (text_results @ image_results). truthy (hit_id x) \<longrightarrow> hit_id x \<in> fst ` set res)
       \<and> set [] \<subseteq> set res"
    using merge_loop_inv[OF res] by simp
  have keys: "map fst res = map hit_id (map snd res)"
    using inv by (auto simp: case_prod_unfold)
  have m: "merge_results text_results image_results = Inr (map snd res)"
    by (simp add: merge_results_def res)
  have d: "distinct (map hit_id (map snd res))" using inv keys by simp
  have all: "\<forall>x \<in> set (text_results @ image_results).
             truthy (hit_id x) \<longrightarrow> hit_id x \<in> set (map hit_id (map snd res))"
    using inv keys by (metis set_map)
  have first: "\<forall>h \<in> set (map snd res). truthy (hit_id h)
             \<and> find (\<lambda>x. hit_id x = hit_id h) (text_results @ image_results) = Some h"
    using inv by fastforce
  have kept: "\<forall>h \<in> set (map snd res). hit_id h \<in> hit_id ` set text_results
             \<longrightarrow> find (\<lambda>x. hit_id x = hit_id h) text_results = Some h"
  proof (intro ballI impI)
    fix h assume h: "h \<in> set (map snd res)" and "hit_id h \<in> hit_id ` set text_results"
    then have "find (\<lambda>x. hit_id x = hit_id h) text_results \<noteq> None"
      by (auto simp: find_None_iff)
    moreover from first h
    have "find (\<lambda>x. hit_id x = hit_id h) (text_results @ image_results) = Some h" by blast
    ultimately show "find (\<lambda>x. hit_id x = hit_id h) text_results = Some h"
      by (auto simp: find_append_first split: option.splits)
  qed
  from m d all first kept show ?thesis by blast
qed

lemma hit_id_example: "hit_id (example_hit k score name) = VStr k"
  by (simp add: hit_id_def get_def example_hit_def)

theorem merge_keeps_first_witness:
  "hashable (hit_id (example_hit ''A'' 9 ''noodles''))
   \<and> hashable (hit_id (example_hit ''B'' 5 ''ramen''))
   \<and> hashable (hit_id (example_hit ''B'' 8 ''ramen''))
   \<and> hashable (hit_id (example_hit ''C'' 7 ''rice''))
   \<and> merge_results [example_hit ''A'' 9 ''noodles'', example_hit ''B'' 5 ''ramen'']
        [example_hit ''B'' 8 ''ramen'', example_hit ''C'' 7 ''rice'']
      = Inr [example_hit ''A'' 9 ''noodles'', example_hit ''B'' 5 ''ramen'', example_hit ''C'' 7 ''rice'']
   \<and> distinct (map hit_id [example_hit ''A'' 9 ''noodles'', example_hit ''B'' 5 ''ramen'',
                            example_hit ''C'' 7 ''rice''])"
proof -
  have h: "\<forall>h \<in> set ([example_hit ''A'' 9 ''noodles'', example_hit ''B'' 5 ''ramen'']
               @ [example_hit ''B'' 8 ''ramen'', example_hit ''C'' 7 ''rice'']). hashable (hit_id h)"
    by (simp add: hit_id_example)
  have e: "merge_results [example_hit ''A'' 9 ''noodles'', example_hit ''B'' 5 ''ramen'']
        [example_hit ''B'' 8 ''ramen'', example_hit ''C'' 7 ''rice'']
      = Inr [example_hit ''A'' 9 ''noodles'', example_hit ''B'' 5 ''ramen'', example_hit ''C'' 7 ''rice'']"
    by (simp add: merge_results_def hit_id_example [unfolded hit_id_def])
  from merge_keeps_first [OF h] h e show ?thesis by (simp add: hit_id_example)
qed

subsection \<open>Fusion: the score a returned hit exposes\<close>

lemma set_slice_to: "set (slice_to xs n) \<subseteq> set xs"
  by (auto simp: slice_to_def dest: in_set_takeD)

lemma set_sort_reverse: "set (sort_reverse f xs) = set xs"
  by (simp add: sort_reverse_def)

lemma rank_set: "rank q xs = Inr ys \<Longrightarrow> set ys = set xs"
  by (auto simp: rank_def set_sort_reverse split: if_splits)

lemma combine_all_elems:
  "combine_all alpha xs = Inr ys \<Longrightarrow>
   \<forall>y \<in> set ys. \<exists>x \<in> set xs. \<exists>c. combined_embedding alpha x = Inr c
      \<and> y = x(''combined_embedding'' \<mapsto> c)"
proof (induction xs arbitrary: ys)
  case Nil
  then show ?case by simp
next
  case (Cons x xs)
  then obtain c ys' where c: "combined_embedding alpha x = Inr c"
    and rest: "combine_all alpha xs = Inr ys'"
    and ys: "ys = x(''combined_embedding'' \<mapsto> c) # ys'"
    by (auto split: sum.splits)
  note tail = Cons.IH[OF rest]
  show ?case
  proof
    fix y assume "y \<in> set ys"
    then consider "y = x(''combined_embedding'' \<mapsto> c)" | "y \<in> set ys'"
      unfolding ys by auto
    then show "\<exists>x' \<in> set (x # xs). \<exists>c. combined_embedding alpha x' = Inr c
        \<and> y = x'(''combined_embedding'' \<mapsto> c)"
    proof cases
      case 1
      with c show ?thesis by (intro bexI[of _ x] exI[of _ c]) simp_all
    next
      case 2
      with tail obtain x' c' where "x' \<in> set xs" "combined_embedding alpha x' = Inr c'"
        "y = x'(''combined_embedding'' \<mapsto> c')" by blast
      then show ?thesis by (intro bexI[of _ x'] exI[of _ c']) simp_all
    qed
  qed
qed

lemma merge_results_subset:
  assumes "merge_results text_results image_results = Inr merged"
  shows "set merged \<subseteq> set (text_results @ image_results)"
proof -
  from assms obtain res where res: "merge_loop [] (text_results @ image_results) = Inr res"
    and m: "merged = map snd res"
    by (auto simp: merge_results_def split: sum.splits)
  from merge_loop_inv[OF res]
  have "\<forall>(k, d) \<in> set res. find (\<lambda>x. hit_id x = k) (text_results @ image_results) = Some d"
    by simp
  then have "\<forall>(k, d) \<in> set res. d \<in> set (text_results @ image_results)"
    by (auto simp: find_Some_iff in_set_conv_nth simp del: set_append)
  with m show ?thesis by auto
qed

lemma search_multimodal_elems:
  assumes "search_multimodal tm im fn gp text_query img limit alpha = Inr hits"
  shows "\<forall>h \<in> set hits.
           \<exists>h0 \<in> set (vector_search fn gp (the (encode_text tm (VStr text_query))) limit ''text''
                      @ vector_search fn gp (the (encode_image im img)) limit ''image'').
             \<exists>c. combined_embedding alpha h0 = Inr c \<and> h = h0(''combined_embedding'' \<mapsto> c)"
proof (cases "\<not> nonempty (encode_text tm (VStr text_query)) \<or> \<not> nonempty (encode_image im img)")
  case True
  with assms have "hits = []" by (auto simp: search_multimodal_def Let_def)
  then show ?thesis by simp
next
  case False
  let ?T = "vector_search fn gp (the (encode_text tm (VStr text_query))) limit ''text''"
  let ?I = "vector_search fn gp (the (encode_image im img)) limit ''image''"
  from False assms obtain merged combined ranked
    where m: "merge_results ?T ?I = Inr merged"
      and c: "combine_all alpha merged = Inr combined"
      and r: "rank (weighted_sum alpha (the (encode_image im img)) (the (encode_text tm (VStr text_query))))
                combined = Inr ranked"
      and h: "hits = slice_to ranked limit"
    by (auto simp: search_multimodal_def Let_def split: sum.splits if_splits)
  have "set hits \<subseteq> set combined"
    using h set_slice_to[of ranked limit] rank_set[OF r] by simp
  moreover note combine_all_elems[OF c]
  moreover note merge_results_subset[OF m]
  ultimately show ?thesis by (meson subsetD)
qed


lemma vector_search_scores:
  assumes "fn (field_of qt) q limit = Inr docs" and "no_score_field gp docs"
  shows "\<forall>h0 \<in> set (vector_search fn gp q limit qt).
           \<exists>d \<in> set docs. h0 ''similarity_score'' = Some (VNum (candidate_score q (field_of qt) d))"
proof
  fix h0 assume "h0 \<in> set (vector_search fn gp q limit qt)"
  then have "h0 \<in> set (map (combined_result gp q (field_of qt)) docs)"
    by (simp add: vector_search_sorted_eq[of fn qt q limit docs gp, OF assms] set_sort_reverse)
  then obtain d where d: "d \<in> set docs" and h0: "h0 = combined_result gp q (field_of qt) d"
    by auto
  from assms(2) d have "join_product gp (get d ''id'') ''similarity_score'' = None"
    by (simp add: no_score_field_def)
  from hit_score[OF this] h0 d
  show "\<exists>d \<in> set docs. h0 ''similarity_score'' = Some (VNum (candidate_score q (field_of qt) d))"
    by blast
qed

text \<open>
  C10. Every hit that \<open>search_multimodal\<close> returns is a hit of the text search or of
  the image search to which only the field \<open>combined_embedding\<close> has been added; its
  \<open>similarity_score\<close> is the one that search gave it, which is the dot product
  recomputed from that search's query and the candidate's stored vector (when the
  store answers and no joined product document has a \<open>similarity_score\<close> field of
  its own). The cosine similarity is the sort key only.
\<close>

theorem exposed_score_is_retrieval_score:
  assumes "search_multimodal tm im fn gp text_query img limit alpha = Inr hits"
  shows "(\<forall>h \<in> set hits.
           \<exists>h0 \<in> set (vector_search fn gp (the (encode_text tm (VStr text_query))) limit ''text''
                      @ vector_search fn gp (the (encode_image im img)) limit ''image'').
             (\<exists>c. combined_embedding alpha h0 = Inr c \<and> h = h0(''combined_embedding'' \<mapsto> c))
             \<and> h ''similarity_score'' = h0 ''similarity_score'')
       \<and> (fn (field_of qt) q limit = Inr docs \<and> no_score_field gp docs \<longrightarrow>
            (\<forall>h0 \<in> set (vector_search fn gp q limit qt).
               \<exists>d \<in> set docs.
                 h0 ''similarity_score'' = Some (VNum (candidate_score q (field_of qt) d))))"
proof -
  have "\<exists>h0 \<in> set (vector_search fn gp (the (encode_text tm (VStr text_query))) limit ''text''
                      @ vector_search fn gp (the (encode_image im img)) limit ''image'').
             (\<exists>c. combined_embedding alpha h0 = Inr c \<and> h = h0(''combined_embedding'' \<mapsto> c))
             \<and> h ''similarity_score'' = h0 ''similarity_score''" if "h \<in> set hits" for h
  proof -
    from search_multimodal_elems[OF assms] that obtain h0 c
      where h0: "h0 \<in> set (vector_search fn gp (the (encode_text tm (VStr text_query))) limit ''text''
                      @ vector_search fn gp (the (encode_image im img)) limit ''image'')"
        and c: "combined_embedding alpha h0 = Inr c" and h: "h = h0(''combined_embedding'' \<mapsto> c)"
      by blast
    from h have "h ''similarity_score'' = h0 ''similarity_score''" by simp
    with h0 c h show ?thesis by blast
  qed
  then have first: "\<forall>h \<in> set hits.
           \<exists>h0 \<in> set (vector_search fn gp (the (encode_text tm (VStr text_query))) limit ''text''
                      @ vector_search fn gp (the (encode_image im img)) limit ''image'').
             (\<exists>c. combined_embedding alpha h0 = Inr c \<and> h = h0(''combined_embedding'' \<mapsto> c))
             \<and> h ''similarity_score'' = h0 ''similarity_score''"
    by (rule ballI)
  have second: "fn (field_of qt) q limit = Inr docs \<and> no_score_field gp docs \<longrightarrow>
            (\<forall>h0 \<in> set (vector_search fn gp q limit qt).
               \<exists>d \<in> set docs.
                 h0 ''similarity_score'' = Some (VNum (candidate_score q (field_of qt) d)))"
  proof
    assume a: "fn (field_of qt) q limit = Inr docs \<and> no_score_field gp docs"
    from vector_search_scores[of fn qt q limit docs gp, OF conjunct1[OF a] conjunct2[OF a]]
    show "\<forall>h0 \<in> set (vector_search fn gp q limit qt).
               \<exists>d \<in> set docs.
                 h0 ''similarity_score'' = Some (VNum (candidate_score q (field_of qt) d))" .
  qed
  from first second show ?thesis by (rule conjI)
qed



lemmas fusion_eval = search_multimodal_def encode_text_def encode_image_def merge_results_def
  combined_embedding_def weighted_sum_def rank_def sort_key_of_def cosine_similarity_def
  slice_to_def join_ok_def

theorem exposed_score_is_retrieval_score_witness:
  "search_multimodal text_model_x image_model_y (fixed_store candidates_two)
        no_products ''noodles'' ''photo'' 30 1
     = Inr (projr (search_multimodal text_model_x image_model_y (fixed_store candidates_two)
        no_products ''noodles'' ''photo'' 30 1))
   \<and> fixed_store candidates_two (field_of ''text'') [1, 0] 30 = Inr candidates_two
   \<and> no_score_field no_products candidates_two
   \<and> map summary (projr (search_multimodal text_model_x image_model_y (fixed_store candidates_two)
        no_products ''noodles'' ''photo'' 30 1))
     = [(Some (VStr ''A''), Some (VNum 3)), (Some (VStr ''B''), Some (VNum 1))]
   \<and> map summary (vector_search (fixed_store candidates_two) no_products [1, 0] 30 ''text'')
     = [(Some (VStr ''A''), Some (VNum 3)), (Some (VStr ''B''), Some (VNum 1))]"
proof -
  have r: "\<not> isl (search_multimodal text_model_x image_model_y (fixed_store candidates_two)
        no_products ''noodles'' ''photo'' 30 1)"
    by (simp add: fusion_eval search_eval text_model_x_def image_model_y_def candidates_two_def)
  then have h1: "search_multimodal text_model_x image_model_y (fixed_store candidates_two)
        no_products ''noodles'' ''photo'' 30 1
     = Inr (projr (search_multimodal text_model_x image_model_y (fixed_store candidates_two)
        no_products ''noodles'' ''photo'' 30 1))"
    by simp
  have h2: "fixed_store candidates_two (field_of ''text'') [1, 0] 30 = Inr candidates_two"
    by (simp add: fixed_store_def)
  have h3: "no_score_field no_products candidates_two"
    by (simp add: no_score_field_def candidates_two_def join_product_def get_def no_products_def
        embedding_doc_data_def)
  have e1: "map summary (projr (search_multimodal text_model_x image_model_y (fixed_store candidates_two)
        no_products ''noodles'' ''photo'' 30 1))
     = [(Some (VStr ''A''), Some (VNum 3)), (Some (VStr ''B''), Some (VNum 1))]"
    by (simp add: fusion_eval search_eval text_model_x_def image_model_y_def candidates_two_def
        summary_def)
  have e2: "map summary (vector_search (fixed_store candidates_two) no_products [1, 0] 30 ''text'')
     = [(Some (VStr ''A''), Some (VNum 3)), (Some (VStr ''B''), Some (VNum 1))]"
    by (simp add: search_eval candidates_two_def summary_def)
  from exposed_score_is_retrieval_score [OF h1, of "''text''" "[1, 0]" candidates_two]
    h1 h2 h3 e1 e2
  show ?thesis by blast
qed

subsection \<open>Fusion: the combined embedding and the cosine\<close>

lemma sum_squares_zero: "\<forall>x \<in> set a. x = 0 \<Longrightarrow> sum_list (map (\<lambda>x. x * x) a) = (0::real)"
  by (induction a) auto

lemma cosine_zero_left: "\<forall>x \<in> set a. x = 0 \<Longrightarrow> cosine_similarity a b = 0"
  by (simp add: cosine_similarity_def sum_squares_zero)

lemma cosine_zero_right: "\<forall>x \<in> set b. x = 0 \<Longrightarrow> cosine_similarity a b = 0"
  by (simp add: cosine_similarity_def sum_squares_zero)

lemma combined_embedding_by_case:
  "(get_default doc ''text_embedding'' (VVec []) = VVec t
      \<and> get_default doc ''image_embedding'' (VVec []) = VVec i \<and> t \<noteq> [] \<and> i \<noteq> []
    \<longrightarrow> combined_embedding alpha doc = Inr (VVec (weighted_sum alpha i t)))
   \<and> (truthy (get_default doc ''text_embedding'' (VVec []))
      \<and> \<not> truthy (get_default doc ''image_embedding'' (VVec []))
    \<longrightarrow> combined_embedding alpha doc = Inr (get_default doc ''text_embedding'' (VVec [])))
   \<and> (\<not> truthy (get_default doc ''text_embedding'' (VVec []))
      \<and> truthy (get_default doc ''image_embedding'' (VVec []))
    \<longrightarrow> combined_embedding alpha doc = Inr (get_default doc ''image_embedding'' (VVec [])))
   \<and> (\<not> truthy (get_default doc ''text_embedding'' (VVec []))
      \<and> \<not> truthy (get_default doc ''image_embedding'' (VVec []))
    \<longrightarrow> combined_embedding alpha doc = Inr (VVec []))"
  by (auto simp: combined_embedding_def)

lemma combined_embedding_returns:
  "vector_or_falsy (get_default doc ''text_embedding'' (VVec [])) \<Longrightarrow>
   vector_or_falsy (get_default doc ''image_embedding'' (VVec [])) \<Longrightarrow>
   \<exists>c. combined_embedding alpha doc = Inr c"
  by (cases "get_default doc ''text_embedding'' (VVec [])";
      cases "get_default doc ''image_embedding'' (VVec [])")
     (simp_all add: combined_embedding_def Let_def)

lemma combine_all_returns:
  "\<forall>doc \<in> set xs. vector_or_falsy (get_default doc ''text_embedding'' (VVec []))
      \<and> vector_or_falsy (get_default doc ''image_embedding'' (VVec [])) \<Longrightarrow>
   \<exists>ys. combine_all alpha xs = Inr ys"
proof (induction xs)
  case Nil
  then show ?case by simp
next
  case (Cons x xs)
  then obtain ys where ys: "combine_all alpha xs = Inr ys" by auto
  from Cons.prems obtain c where "combined_embedding alpha x = Inr c"
    using combined_embedding_returns[of x alpha] by auto
  with ys show ?case by simp
qed

lemma combine_all_nth:
  "combine_all alpha xs = Inr ys \<Longrightarrow>
   length ys = length xs
   \<and> (\<forall>j < length xs. \<exists>c. combined_embedding alpha (xs ! j) = Inr c
         \<and> ys ! j = (xs ! j)(''combined_embedding'' \<mapsto> c))"
proof (induction xs arbitrary: ys)
  case Nil
  then show ?case by simp
next
  case (Cons x xs)
  then obtain c ys' where c: "combined_embedding alpha x = Inr c"
    and rest: "combine_all alpha xs = Inr ys'"
    and ys: "ys = x(''combined_embedding'' \<mapsto> c) # ys'"
    by (auto split: sum.splits)
  note tail = Cons.IH[OF rest]
  have "\<exists>c'. combined_embedding alpha ((x # xs) ! j) = Inr c'
         \<and> ys ! j = ((x # xs) ! j)(''combined_embedding'' \<mapsto> c')" if "j < length (x # xs)" for j
  proof (cases j)
    case 0
    with c ys show ?thesis by simp
  next
    case (Suc k)
    with that have "k < length xs" by simp
    with tail obtain c' where "combined_embedding alpha (xs ! k) = Inr c'"
      "ys' ! k = (xs ! k)(''combined_embedding'' \<mapsto> c')" by blast
    with Suc ys show ?thesis by simp
  qed
  moreover have "length ys = length (x # xs)" using tail ys by simp
  ultimately show ?case by blast
qed

lemma combine_all_by_case:
  assumes "combine_all alpha merged = Inr combined" and "j < length merged"
  shows "(get_default (merged ! j) ''text_embedding'' (VVec []) = VVec t
            \<and> get_default (merged ! j) ''image_embedding'' (VVec []) = VVec i
            \<and> t \<noteq> [] \<and> i \<noteq> []
          \<longrightarrow> combined ! j = (merged ! j)(''combined_embedding'' \<mapsto> VVec (weighted_sum alpha i t)))
       \<and> (truthy (get_default (merged ! j) ''text_embedding'' (VVec []))
            \<and> \<not> truthy (get_default (merged ! j) ''image_embedding'' (VVec []))
          \<longrightarrow> combined ! j = (merged ! j)(''combined_embedding'' \<mapsto>
                  get_default (merged ! j) ''text_embedding'' (VVec [])))
       \<and> (\<not> truthy (get_default (merged ! j) ''text_embedding'' (VVec []))
            \<and> truthy (get_default (merged ! j) ''image_embedding'' (VVec []))
          \<longrightarrow> combined ! j = (merged ! j)(''combined_embedding'' \<mapsto>
                  get_default (merged ! j) ''image_embedding'' (VVec [])))
       \<and> (\<not> truthy (get_default (merged ! j) ''text_embedding'' (VVec []))
            \<and> \<not> truthy (get_default (merged ! j) ''image_embedding'' (VVec []))
          \<longrightarrow> combined ! j = (merged ! j)(''combined_embedding'' \<mapsto> VVec [])
              \<and> sort_key_of q (combined ! j) = Inr 0)"
proof -
  from combine_all_nth[OF assms(1)] assms(2) obtain c
    where c: "combined_embedding alpha (merged ! j) = Inr c"
      and j: "combined ! j = (merged ! j)(''combined_embedding'' \<mapsto> c)"
    by blast
  have zero: "sort_key_of q ((merged ! j)(''combined_embedding'' \<mapsto> VVec [])) = Inr 0"
    by (simp add: sort_key_of_def get_default_def cosine_zero_left)
  from combined_embedding_by_case[of "merged ! j" t i alpha] c j zero
  show ?thesis by auto
qed

text \<open>
  C5. The loop of lines 103--115 returns (the stored fields being vectors, or absent)
  one hit per merged candidate, each with the field \<open>combined_embedding\<close> added: with
  both stored vectors present it is the weighted sum
  \<open>alpha * image[j] + (1 - alpha) * text[j]\<close> per dimension; with exactly one present
  it is that vector unchanged; with none it is empty and the candidate's sort key (its
  fused score) is 0. Every hit that the multimodal search returns is such a candidate
  with its combined embedding. The cosine similarity with an empty or all-zero vector
  on either side is 0.
\<close>

theorem combined_embedding_of_candidates:
  "((\<forall>doc \<in> set merged. vector_or_falsy (get_default doc ''text_embedding'' (VVec []))
        \<and> vector_or_falsy (get_default doc ''image_embedding'' (VVec [])))
      \<longrightarrow> (\<exists>combined. combine_all alpha merged = Inr combined))
   \<and> (combine_all alpha merged = Inr combined \<longrightarrow>
        length combined = length merged
        \<and> (\<forall>j < length merged.
              (get_default (merged ! j) ''text_embedding'' (VVec []) = VVec t
                 \<and> get_default (merged ! j) ''image_embedding'' (VVec []) = VVec i
                 \<and> t \<noteq> [] \<and> i \<noteq> []
               \<longrightarrow> combined ! j
                     = (merged ! j)(''combined_embedding'' \<mapsto> VVec (weighted_sum alpha i t)))
            \<and> (truthy (get_default (merged ! j) ''text_embedding'' (VVec []))
                 \<and> \<not> truthy (get_default (merged ! j) ''image_embedding'' (VVec []))
               \<longrightarrow> combined ! j = (merged ! j)(''combined_embedding'' \<mapsto>
                       get_default (merged ! j) ''text_embedding'' (VVec [])))
            \<and> (\<not> truthy (get_default (merged ! j) ''text_embedding'' (VVec []))
                 \<and> truthy (get_default (merged ! j) ''image_embedding'' (VVec []))
               \<longrightarrow> combined ! j = (merged ! j)(''combined_embedding'' \<mapsto>
                       get_default (merged ! j) ''image_embedding'' (VVec [])))
            \<and> (\<not> truthy (get_default (merged ! j) ''text_embedding'' (VVec []))
                 \<and> \<not> truthy (get_default (merged ! j) ''image_embedding'' (VVec []))
               \<longrightarrow> combined ! j = (merged ! j)(''combined_embedding'' \<mapsto> VVec [])
                   \<and> sort_key_of q (combined ! j) = Inr 0)))
   \<and> (search_multimodal tm im fn gp text_query img limit alpha = Inr hits \<longrightarrow>
        (\<forall>h \<in> set hits.
           \<exists>h0 \<in> set (vector_search fn gp (the (encode_text tm (VStr text_query))) limit ''text''
                      @ vector_search fn gp (the (encode_image im img)) limit ''image'').
             \<exists>c. combined_embedding alpha h0 = Inr c \<and> h = h0(''combined_embedding'' \<mapsto> c)))
   \<and> length (weighted_sum alpha i t) = min (length i) (length t)
   \<and> (\<forall>k < min (length i) (length t).
         weighted_sum alpha i t ! k = alpha * i ! k + (1 - alpha) * t ! k)
   \<and> ((\<forall>x \<in> set a. x = 0) \<or> (\<forall>y \<in> set b. y = 0) \<longrightarrow> cosine_similarity a b = 0)"
proof -
  have returns: "(\<forall>doc \<in> set merged. vector_or_falsy (get_default doc ''text_embedding'' (VVec []))
        \<and> vector_or_falsy (get_default doc ''image_embedding'' (VVec [])))
      \<longrightarrow> (\<exists>combined. combine_all alpha merged = Inr combined)"
    using combine_all_returns[of merged alpha] by blast
  have each: "combine_all alpha merged = Inr combined \<longrightarrow>
        length combined = length merged
        \<and> (\<forall>j < length merged.
              (get_default (merged ! j) ''text_embedding'' (VVec []) = VVec t
                 \<and> get_default (merged ! j) ''image_embedding'' (VVec []) = VVec i
                 \<and> t \<noteq> [] \<and> i \<noteq> []
               \<longrightarrow> combined ! j
                     = (merged ! j)(''combined_embedding'' \<mapsto> VVec (weighted_sum alpha i t)))
            \<and> (truthy (get_default (merged ! j) ''text_embedding'' (VVec []))
                 \<and> \<not> truthy (get_default (merged ! j) ''image_embedding'' (VVec []))
               \<longrightarrow> combined ! j = (merged ! j)(''combined_embedding'' \<mapsto>
                       get_default (merged ! j) ''text_embedding'' (VVec [])))
            \<and> (\<not> truthy (get_default (merged ! j) ''text_embedding'' (VVec []))
                 \<and> truthy (get_default (merged ! j) ''image_embedding'' (VVec []))
               \<longrightarrow> combined ! j = (merged ! j)(''combined_embedding'' \<mapsto>
                       get_default (merged ! j) ''image_embedding'' (VVec [])))
            \<and> (\<not> truthy (get_default (merged ! j) ''text_embedding'' (VVec []))
                 \<and> \<not> truthy (get_default (merged ! j) ''image_embedding'' (VVec []))
               \<longrightarrow> combined ! j = (merged ! j)(''combined_embedding'' \<mapsto> VVec [])
                   \<and> sort_key_of q (combined ! j) = Inr 0))"
  proof
    assume run: "combine_all alpha merged = Inr combined"
    have "length combined = length merged" using combine_all_nth[OF run] by blast
    with combine_all_by_case[OF run, of _ t i q] show "length combined = length merged
        \<and> (\<forall>j < length merged.
              (get_default (merged ! j) ''text_embedding'' (VVec []) = VVec t
                 \<and> get_default (merged ! j) ''image_embedding'' (VVec []) = VVec i
                 \<and> t \<noteq> [] \<and> i \<noteq> []
               \<longrightarrow> combined ! j
                     = (merged ! j)(''combined_embedding'' \<mapsto> VVec (weighted_sum alpha i t)))
            \<and> (truthy (get_default (merged ! j) ''text_embedding'' (VVec []))
                 \<and> \<not> truthy (get_default (merged ! j) ''image_embedding'' (VVec []))
               \<longrightarrow> combined ! j = (merged ! j)(''combined_embedding'' \<mapsto>
                       get_default (merged ! j) ''text_embedding'' (VVec [])))
            \<and> (\<not> truthy (get_default (merged ! j) ''text_embedding'' (VVec []))
                 \<and> truthy (get_default (merged ! j) ''image_embedding'' (VVec []))
               \<longrightarrow> combined ! j = (merged ! j)(''combined_embedding'' \<mapsto>
                       get_default (merged ! j) ''image_embedding'' (VVec [])))
            \<and> (\<not> truthy (get_default (merged ! j) ''text_embedding'' (VVec []))
                 \<and> \<not> truthy (get_default (merged ! j) ''image_embedding'' (VVec []))
               \<longrightarrow> combined ! j = (merged ! j)(''combined_embedding'' \<mapsto> VVec [])
                   \<and> sort_key_of q (combined ! j) = Inr 0))"
      by blast
  qed
  have search: "search_multimodal tm im fn gp text_query img limit alpha = Inr hits \<longrightarrow>
        (\<forall>h \<in> set hits.
           \<exists>h0 \<in> set (vector_search fn gp (the (encode_text tm (VStr text_query))) limit ''text''
                      @ vector_search fn gp (the (encode_image im img)) limit ''image'').
             \<exists>c. combined_embedding alpha h0 = Inr c \<and> h = h0(''combined_embedding'' \<mapsto> c))"
    using search_multimodal_elems[of tm im fn gp text_query img limit alpha hits] by blast
  have sum: "length (weighted_sum alpha i t) = min (length i) (length t)
   \<and> (\<forall>k < min (length i) (length t).
         weighted_sum alpha i t ! k = alpha * i ! k + (1 - alpha) * t ! k)"
    by (simp add: length_weighted_sum weighted_sum_nth)
  have cosine: "(\<forall>x \<in> set a. x = 0) \<or> (\<forall>y \<in> set b. y = 0) \<longrightarrow> cosine_similarity a b = 0"
    using cosine_zero_left[of a b] cosine_zero_right[of b a] by blast
  from returns each search sum cosine show ?thesis by blast
qed

theorem combined_embedding_of_candidates_witness:
  "combine_all (1/2) candidates_mixed = Inr (projr (combine_all (1/2) candidates_mixed))
   \<and> map combined_of (projr (combine_all (1/2) candidates_mixed))
       = [Some (VVec [2, 3]), Some (VVec [1, 2]), Some (VVec [3, 4]), Some (VVec [])]
   \<and> sort_key_of [1, 2] (projr (combine_all (1/2) candidates_mixed) ! 3) = Inr 0
   \<and> map combined_of (projr (search_multimodal text_model_x image_model_y
         (fixed_store candidates_two) no_products ''noodles'' ''photo'' 30 1))
       = [Some (VVec [0, 1]), Some (VVec [1, 0])]
   \<and> cosine_similarity [] [1, 2] = 0
   \<and> cosine_similarity [0, 0] [1, 2] = 0"
proof -
  have r: "combine_all (1/2) candidates_mixed = Inr (projr (combine_all (1/2) candidates_mixed))"
    by (simp add: candidates_mixed_def combined_embedding_def get_default_def
        embedding_doc_data_def)
  have e: "map combined_of (projr (combine_all (1/2) candidates_mixed))
       = [Some (VVec [2, 3]), Some (VVec [1, 2]), Some (VVec [3, 4]), Some (VVec [])]"
    by (simp add: candidates_mixed_def combined_embedding_def get_default_def
        embedding_doc_data_def weighted_sum_def combined_of_def)
  have s: "map combined_of (projr (search_multimodal text_model_x image_model_y
         (fixed_store candidates_two) no_products ''noodles'' ''photo'' 30 1))
       = [Some (VVec [0, 1]), Some (VVec [1, 0])]"
    by (simp add: fusion_eval search_eval text_model_x_def image_model_y_def candidates_two_def
        combined_of_def)
  have l: "(3 :: nat) < length candidates_mixed" by (simp add: candidates_mixed_def)
  have absent: "\<not> truthy (get_default (candidates_mixed ! 3) ''text_embedding'' (VVec []))
      \<and> \<not> truthy (get_default (candidates_mixed ! 3) ''image_embedding'' (VVec []))"
    by (simp add: candidates_mixed_def get_default_def)
  note inst = combined_embedding_of_candidates [where merged = candidates_mixed and alpha = "1/2"
      and combined = "projr (combine_all (1/2) candidates_mixed)" and q = "[1, 2]"
      and a = "[0, 0]" and b = "[1, 2]" and t = "[]" and i = "[]"
      and tm = text_model_x and im = image_model_y and fn = "fixed_store candidates_two"
      and gp = no_products and text_query = "''noodles''" and img = "''photo''"
      and limit = 30 and hits = "[]"]
  from inst r have "\<forall>j < length candidates_mixed.
      \<not> truthy (get_default (candidates_mixed ! j) ''text_embedding'' (VVec []))
        \<and> \<not> truthy (get_default (candidates_mixed ! j) ''image_embedding'' (VVec []))
      \<longrightarrow> sort_key_of [1, 2] (projr (combine_all (1/2) candidates_mixed) ! j) = Inr 0"
    by blast
  with l absent
  have k: "sort_key_of [1, 2] (projr (combine_all (1/2) candidates_mixed) ! 3) = Inr 0"
    by blast
  from inst have "(\<forall>x \<in> set [0, 0 :: real]. x = 0) \<or> (\<forall>y \<in> set [1, 2 :: real]. y = 0)
      \<longrightarrow> cosine_similarity [0, 0] [1, 2] = 0"
    by blast
  then have z: "cosine_similarity [0, 0] [1, 2] = 0" by simp
  have z': "cosine_similarity [] [1, 2] = 0" by (simp add: cosine_similarity_def)
  from r e k s z z' show ?thesis by blast
qed


subsection \<open>Search: failures of the model and of the store\<close>

text \<open>
  C7, as stated, fails on its second part: when the store cannot be reached,
  \<open>vector_search\<close> catches the exception and returns the empty list, so each search
  returns the empty list, the very value returned when the query embedding cannot be
  produced; no error reaches the caller.
\<close>

theorem store_failure_returns_empty_list:
  "search_by_text text_model_x failing_store no_products ''noodles'' 30 = Inr []
   \<and> search_by_image image_model_y failing_store no_products ''photo'' 30 ''image'' = Inr []
   \<and> search_multimodal text_model_x image_model_y failing_store no_products ''noodles'' ''photo'' 30 (7/10)
       = Inr []
   \<and> search_by_text failing_text_model (fixed_store candidates_two) no_products ''noodles'' 30 = Inr []"
  by (simp add: search_by_text_def search_by_image_def fusion_eval search_eval
      failing_store_def failing_text_model_def text_model_x_def image_model_y_def)

lemma vector_search_store_failure:
  "fn (field_of qt) q limit = Inl e \<Longrightarrow> vector_search fn gp q limit qt = []"
  by (simp add: vector_search_def field_of_def)

text \<open>
  C7, amended. A model that raises yields no embedding; a search whose query embedding
  is missing or empty returns the empty list rather than an error (the multimodal
  search when either of the two is); and a failure of the store during the search is
  absorbed in the same way: \<open>vector_search\<close> returns the empty list, and so do the
  three search operations.
\<close>

theorem search_absorbs_failures:
  "(tm (VStr query) = Inl e \<longrightarrow> encode_text tm (VStr query) = None)
   \<and> (im img = Inl e \<longrightarrow> encode_image im img = None)
   \<and> (\<not> nonempty (encode_text tm (VStr query)) \<longrightarrow> search_by_text tm fn gp query limit = Inr [])
   \<and> (\<not> nonempty (encode_image im img) \<longrightarrow> search_by_image im fn gp img limit qt = Inr [])
   \<and> (\<not> nonempty (encode_text tm (VStr query)) \<or> \<not> nonempty (encode_image im img)
        \<longrightarrow> search_multimodal tm im fn gp query img limit alpha = Inr [])
   \<and> ((\<forall>field q. fn field q limit = Inl e')
        \<longrightarrow> vector_search fn gp q' limit qt = []
          \<and> search_by_text tm fn gp query limit = Inr []
          \<and> search_by_image im fn gp img limit qt = Inr []
          \<and> search_multimodal tm im fn gp query img limit alpha = Inr [])"
proof -
  have enc: "(tm (VStr query) = Inl e \<longrightarrow> encode_text tm (VStr query) = None)
   \<and> (im img = Inl e \<longrightarrow> encode_image im img = None)"
    by (simp add: encode_text_def encode_image_def)
  have t: "\<not> nonempty (encode_text tm (VStr query)) \<longrightarrow> search_by_text tm fn gp query limit = Inr []"
    by (simp add: search_by_text_def)
  have i: "\<not> nonempty (encode_image im img) \<longrightarrow> search_by_image im fn gp img limit qt = Inr []"
    by (simp add: search_by_image_def)
  have m: "\<not> nonempty (encode_text tm (VStr query)) \<or> \<not> nonempty (encode_image im img)
        \<longrightarrow> search_multimodal tm im fn gp query img limit alpha = Inr []"
    by (auto simp: search_multimodal_def)
  have s: "vector_search fn gp q' limit qt = []
          \<and> search_by_text tm fn gp query limit = Inr []
          \<and> search_by_image im fn gp img limit qt = Inr []
          \<and> search_multimodal tm im fn gp query img limit alpha = Inr []"
    if f: "\<forall>field q. fn field q limit = Inl e'"
  proof -
    have v: "vector_search fn gp q limit qt' = []" for q qt'
      using f by (simp add: vector_search_store_failure)
    show ?thesis
      by (simp add: v search_by_text_def search_by_image_def search_multimodal_def Let_def
          merge_results_def rank_def slice_to_def sort_reverse_def)
  qed
  from enc t i m s show ?thesis by blast
qed

theorem search_absorbs_failures_witness:
  "failing_text_model (VStr ''noodles'') = Inl ProviderError
   \<and> \<not> nonempty (encode_text failing_text_model (VStr ''noodles''))
   \<and> search_by_text failing_text_model (fixed_store candidates_two) no_products ''noodles'' 30 = Inr []
   \<and> failing_store ''text_embedding'' [1, 0] 30 = Inl StoreError
   \<and> search_by_text text_model_x failing_store no_products ''noodles'' 30 = Inr []
   \<and> search_multimodal text_model_x image_model_y failing_store no_products ''noodles'' ''photo'' 30 (7/10)
       = Inr []"
proof -
  have a: "failing_text_model (VStr ''noodles'') = Inl ProviderError"
    by (simp add: failing_text_model_def)
  have b: "\<forall>field q. failing_store field q 30 = Inl StoreError"
    by (simp add: failing_store_def)
  from search_absorbs_failures [of failing_text_model "''noodles''" ProviderError image_model_y
      "''photo''" "fixed_store candidates_two" no_products 30 "''image''" "7/10" StoreError "[1, 0]"]
    a
  have c: "\<not> nonempty (encode_text failing_text_model (VStr ''noodles''))
    \<and> search_by_text failing_text_model (fixed_store candidates_two) no_products ''noodles'' 30 = Inr []"
    by simp
  from search_absorbs_failures [of text_model_x "''noodles''" ProviderError image_model_y
      "''photo''" failing_store no_products 30 "''image''" "7/10" StoreError "[1, 0]"]
    b
  have d: "search_by_text text_model_x failing_store no_products ''noodles'' 30 = Inr []
   \<and> search_multimodal text_model_x image_model_y failing_store no_products ''noodles'' ''photo'' 30 (7/10)
       = Inr []"
    by blast
  from a b c d show ?thesis by blast
qed

subsection \<open>Fusion: the weights 0 and 1\<close>

lemma sqrt_25: "sqrt 25 = 5"
  by (rule real_sqrt_unique) simp_all

text \<open>
  C6, as stated, fails: the fused ranking orders by cosine similarity, the text search
  by dot product. With the text query \<open>[1, 0]\<close> and the stored text vectors
  \<open>[3, 4]\<close> (product A, dot product 3, cosine 3/5) and \<open>[1, 0]\<close> (product B, dot
  product 1, cosine 1) the text search returns A before B, and the multimodal search
  with \<open>alpha = 0\<close> returns B before A.
\<close>

theorem fusion_at_zero_is_not_text_ranking:
  "map hit_id (vector_search (fixed_store candidates_two) no_products [1, 0] 30 ''text'')
     = [VStr ''A'', VStr ''B'']
   \<and> \<not> isl (search_multimodal text_model_x image_model_y (fixed_store candidates_two)
        no_products ''noodles'' ''photo'' 30 0)
   \<and> map hit_id (projr (search_multimodal text_model_x image_model_y (fixed_store candidates_two)
        no_products ''noodles'' ''photo'' 30 0))
     = [VStr ''B'', VStr ''A'']"
  by (simp add: fusion_eval search_eval text_model_x_def image_model_y_def candidates_two_def
      hit_id_def sqrt_25)

lemma insort_key_map:
  "insort_key f (g x) (map g ys) = map g (insort_key (\<lambda>x. f (g x)) x ys)"
  by (induction ys) auto

lemma sort_key_map: "sort_key f (map g xs) = map g (sort_key (\<lambda>x. f (g x)) xs)"
  by (induction xs) (simp_all add: insort_key_map)

lemma sort_reverse_map: "sort_reverse f (map g xs) = map g (sort_reverse (\<lambda>x. f (g x)) xs)"
  by (simp add: sort_reverse_def rev_map sort_key_map)

lemma weighted_sum_zero: "length i = length t \<Longrightarrow> weighted_sum 0 i t = t"
  by (induction i t rule: list_induct2) (simp_all add: weighted_sum_def)

lemma weighted_sum_one: "length i = length t \<Longrightarrow> weighted_sum 1 i t = i"
  by (induction i t rule: list_induct2) (simp_all add: weighted_sum_def)

lemma vector_of_length_iff:
  "vector_of_length n x \<longleftrightarrow> (\<exists>v. x = Some (VVec v) \<and> length v = n)"
  by (cases "(n, x)" rule: vector_of_length.cases) auto

lemma combined_embedding_zero:
  "both_vectors n h \<Longrightarrow> 0 < n \<Longrightarrow> combined_embedding 0 h = Inr (VVec (text_vector h))"
  by (auto simp: both_vectors_def vector_of_length_iff combined_embedding_def get_default_def
      text_vector_def get_def weighted_sum_zero Let_def)

lemma combined_embedding_one:
  "both_vectors n h \<Longrightarrow> 0 < n \<Longrightarrow> combined_embedding 1 h = Inr (VVec (image_vector h))"
  by (auto simp: both_vectors_def vector_of_length_iff combined_embedding_def get_default_def
      image_vector_def get_def weighted_sum_one Let_def)

lemma combine_all_map:
  "\<forall>h \<in> set hs. combined_embedding alpha h = Inr (VVec (c h)) \<Longrightarrow>
   combine_all alpha hs = Inr (map (\<lambda>h. h(''combined_embedding'' \<mapsto> VVec (c h))) hs)"
  by (induction hs) simp_all

lemma rank_map:
  "rank q (map (\<lambda>h. h(''combined_embedding'' \<mapsto> VVec (c h))) hs)
   = Inr (map (\<lambda>h. h(''combined_embedding'' \<mapsto> VVec (c h)))
            (sort_reverse (\<lambda>h. cosine_similarity (c h) q) hs))"
  by (simp add: rank_def sort_key_of_def get_default_def sort_reverse_map)


lemma fusion_ranked:
  assumes "encode_text tm (VStr tq) = Some qt" and "encode_image im img = Some qi"
    and "qt \<noteq> []" and "qi \<noteq> []"
    and "merge_results (vector_search fn gp qt limit ''text'')
           (vector_search fn gp qi limit ''image'') = Inr merged"
    and "\<forall>h \<in> set merged. combined_embedding alpha h = Inr (VVec (c h))"
  shows "search_multimodal tm im fn gp tq img limit alpha
       = report_top (slice_to (map (\<lambda>h. h(''combined_embedding'' \<mapsto> VVec (c h)))
                (sort_reverse (\<lambda>h. cosine_similarity (c h) (weighted_sum alpha qi qt)) merged)) limit)"
  unfolding search_multimodal_def Let_def report_top_def
  using assms(3,4)
  by (simp add: assms(1,2,5) combine_all_map[OF assms(6)] rank_map)

lemma report_top_names:
  assumes "\<forall>h \<in> set xs. is_str (get_default h ''product_name'' (VStr ''Unknown''))"
  shows "report_top (slice_to (map (\<lambda>h. h(''combined_embedding'' \<mapsto> VVec (c h))) (sort_reverse f xs)) limit)
       = Inr (slice_to (map (\<lambda>h. h(''combined_embedding'' \<mapsto> VVec (c h))) (sort_reverse f xs)) limit)"
proof -
  let ?ranked = "map (\<lambda>h. h(''combined_embedding'' \<mapsto> VVec (c h))) (sort_reverse f xs)"
  have names: "\<forall>h \<in> set ?ranked. is_str (get_default h ''product_name'' (VStr ''Unknown''))"
    using assms by (simp add: set_sort_reverse get_default_def)
  have "set (slice_to (slice_to ?ranked limit) 5) \<subseteq> set ?ranked"
    using set_slice_to[of "slice_to ?ranked limit" 5] set_slice_to[of ?ranked limit] by blast
  with names have "join_ok (map (\<lambda>r. get_default r ''product_name'' (VStr ''Unknown''))
           (slice_to (slice_to ?ranked limit) 5))"
    by (auto simp: join_ok_def)
  then show ?thesis by (simp add: report_top_def)
qed

text \<open>
  C6, amended. Let both query embeddings have length \<open>n > 0\<close>, and let every merged
  candidate carry both stored vectors with length \<open>n\<close>. Then the multimodal search with
  \<open>alpha = 0\<close> ranks the merged candidates in descending order of the cosine similarity
  (lines 122--126) between their stored text vector and the text query, ties in merge
  order, and cuts the list to the limit; with \<open>alpha = 1\<close> the same with the stored
  image vector and the image query. It returns that list, or raises \<open>TypeError\<close> when
  one of its first five product names is not a string; when every candidate's product
  name is a string or missing, it returns the list. The order by cosine similarity is
  not the order by dot product of the single-modality search, as the example above
  shows.
\<close>

theorem fusion_weight_boundary:
  assumes "encode_text tm (VStr tq) = Some qt" and "encode_image im img = Some qi"
    and "length qt = n" and "length qi = n" and "0 < n"
    and "merge_results (vector_search fn gp qt limit ''text'')
           (vector_search fn gp qi limit ''image'') = Inr merged"
    and "\<forall>h \<in> set merged. both_vectors n h"
  shows "search_multimodal tm im fn gp tq img limit 0
           = report_top (slice_to (map (\<lambda>h. h(''combined_embedding'' \<mapsto> VVec (text_vector h)))
                    (sort_reverse (\<lambda>h. cosine_similarity (text_vector h) qt) merged)) limit)
       \<and> search_multimodal tm im fn gp tq img limit 1
           = report_top (slice_to (map (\<lambda>h. h(''combined_embedding'' \<mapsto> VVec (image_vector h)))
                    (sort_reverse (\<lambda>h. cosine_similarity (image_vector h) qi) merged)) limit)
       \<and> ((\<forall>h \<in> set merged. is_str (get_default h ''product_name'' (VStr ''Unknown'')))
            \<longrightarrow> search_multimodal tm im fn gp tq img limit 0
                  = Inr (slice_to (map (\<lambda>h. h(''combined_embedding'' \<mapsto> VVec (text_vector h)))
                      (sort_reverse (\<lambda>h. cosine_similarity (text_vector h) qt) merged)) limit)
              \<and> search_multimodal tm im fn gp tq img limit 1
                  = Inr (slice_to (map (\<lambda>h. h(''combined_embedding'' \<mapsto> VVec (image_vector h)))
                      (sort_reverse (\<lambda>h. cosine_similarity (image_vector h) qi) merged)) limit))"
proof -
  have ne: "qt \<noteq> []" "qi \<noteq> []" using assms(3,4,5) by auto
  have c0: "\<forall>h \<in> set merged. combined_embedding 0 h = Inr (VVec (text_vector h))"
    using assms(5,7) combined_embedding_zero by blast
  have c1: "\<forall>h \<in> set merged. combined_embedding 1 h = Inr (VVec (image_vector h))"
    using assms(5,7) combined_embedding_one by blast
  have q0: "weighted_sum 0 qi qt = qt" using assms(3,4) by (simp add: weighted_sum_zero)
  have q1: "weighted_sum 1 qi qt = qi" using assms(3,4) by (simp add: weighted_sum_one)
  note zero = fusion_ranked[OF assms(1,2) ne assms(6) c0, unfolded q0]
  note one = fusion_ranked[OF assms(1,2) ne assms(6) c1, unfolded q1]
  have named: "search_multimodal tm im fn gp tq img limit 0
                  = Inr (slice_to (map (\<lambda>h. h(''combined_embedding'' \<mapsto> VVec (text_vector h)))
                      (sort_reverse (\<lambda>h. cosine_similarity (text_vector h) qt) merged)) limit)
              \<and> search_multimodal tm im fn gp tq img limit 1
                  = Inr (slice_to (map (\<lambda>h. h(''combined_embedding'' \<mapsto> VVec (image_vector h)))
                      (sort_reverse (\<lambda>h. cosine_similarity (image_vector h) qi) merged)) limit)"
    if names: "\<forall>h \<in> set merged. is_str (get_default h ''product_name'' (VStr ''Unknown''))"
    unfolding zero one
    using report_top_names[OF names, where c = text_vector
            and f = "\<lambda>h. cosine_similarity (text_vector h) qt" and limit = limit]
          report_top_names[OF names, where c = image_vector
            and f = "\<lambda>h. cosine_similarity (image_vector h) qi" and limit = limit]
    by (rule conjI)
  from zero one named show ?thesis by blast
qed

theorem fusion_weight_boundary_witness:
  "encode_text text_model_x (VStr ''noodles'') = Some [1, 0]
   \<and> encode_image image_model_y ''photo'' = Some [0, 1]
   \<and> map hit_id (projr (merge_results
         (vector_search (fixed_store candidates_unit) no_products [1, 0] 30 ''text'')
         (vector_search (fixed_store candidates_unit) no_products [0, 1] 30 ''image'')))
       = [VStr ''B'', VStr ''A'']
   \<and> map hit_id (projr (search_multimodal text_model_x image_model_y (fixed_store candidates_unit)
        no_products ''noodles'' ''photo'' 30 0)) = [VStr ''B'', VStr ''A'']
   \<and> map hit_id (projr (search_multimodal text_model_x image_model_y (fixed_store candidates_unit)
        no_products ''noodles'' ''photo'' 30 1)) = [VStr ''A'', VStr ''B'']"
proof -
  let ?T = "vector_search (fixed_store candidates_unit) no_products [1, 0] 30 ''text''"
  let ?I = "vector_search (fixed_store candidates_unit) no_products [0, 1] 30 ''image''"
  let ?M = "projr (merge_results ?T ?I)"
  have e1: "encode_text text_model_x (VStr ''noodles'') = Some [1, 0]"
    by (simp add: encode_text_def text_model_x_def)
  have e2: "encode_image image_model_y ''photo'' = Some [0, 1]"
    by (simp add: encode_image_def image_model_y_def)
  have l: "length [1, 0 :: real] = 2" "length [0, 1 :: real] = 2" "0 < (2 :: nat)" by simp_all
  have m: "merge_results ?T ?I = Inr ?M"
    by (simp add: merge_results_def search_eval candidates_unit_def)
  have wf: "\<forall>h \<in> set ?M. both_vectors 2 h"
    by (simp add: merge_results_def search_eval candidates_unit_def both_vectors_def)
  have names: "\<forall>h \<in> set ?M. is_str (get_default h ''product_name'' (VStr ''Unknown''))"
    by (simp add: merge_results_def search_eval candidates_unit_def)
  have ids: "map hit_id ?M = [VStr ''B'', VStr ''A'']"
    by (simp add: merge_results_def search_eval candidates_unit_def hit_id_def)
  have c0: "map hit_id (slice_to (map (\<lambda>h. h(''combined_embedding'' \<mapsto> VVec (text_vector h)))
                      (sort_reverse (\<lambda>h. cosine_similarity (text_vector h) [1, 0]) ?M)) 30)
            = [VStr ''B'', VStr ''A'']"
    by (simp add: merge_results_def search_eval candidates_unit_def hit_id_def slice_to_def
        text_vector_def cosine_similarity_def)
  have c1: "map hit_id (slice_to (map (\<lambda>h. h(''combined_embedding'' \<mapsto> VVec (image_vector h)))
                      (sort_reverse (\<lambda>h. cosine_similarity (image_vector h) [0, 1]) ?M)) 30)
            = [VStr ''A'', VStr ''B'']"
    by (simp add: merge_results_def search_eval candidates_unit_def hit_id_def slice_to_def
        image_vector_def cosine_similarity_def)
  from fusion_weight_boundary [OF e1 e2 l m wf] names
  have s: "search_multimodal text_model_x image_model_y (fixed_store candidates_unit)
        no_products ''noodles'' ''photo'' 30 0
      = Inr (slice_to (map (\<lambda>h. h(''combined_embedding'' \<mapsto> VVec (text_vector h)))
                      (sort_reverse (\<lambda>h. cosine_similarity (text_vector h) [1, 0]) ?M)) 30)"
    and s': "search_multimodal text_model_x image_model_y (fixed_store candidates_unit)
        no_products ''noodles'' ''photo'' 30 1
      = Inr (slice_to (map (\<lambda>h. h(''combined_embedding'' \<mapsto> VVec (image_vector h)))
                      (sort_reverse (\<lambda>h. cosine_similarity (image_vector h) [0, 1]) ?M)) 30)"
    by blast+
  from e1 e2 ids c0 c1 show ?thesis unfolding s s' by simp
qed

end
